theory Spec2Isabelle
  imports Main "HOL-Library.Word"
begin

unbundle bit_operations_syntax

section \<open>JavaScript values and strings\<close>

text \<open>
  The module \<^verbatim>\<open>src/main.js\<close> is a Companion plug-in: one class, \<^verbatim>\<open>LiveGradeInstance\<close>,
  whose methods are run by the host framework, by the events of a WebSocket, by timers and
  by the continuation of an asynchronous function.

  A JavaScript string is represented by the bytes of its UTF-8 encoding, one \<open>char\<close> per
  byte, so that an ASCII literal of the source is the same literal here and the bytes fed to
  the hash are the characters themselves. A number is a double whose value is an integer,
  \<open>JNum\<close> with that value, or \<^verbatim>\<open>NaN\<close>, or an infinity, \<open>JInf\<close> with \<open>True\<close> for the
  negative one; fractions do not occur in what the module computes. An object is the list
  of its own properties in insertion order, each key once.
\<close>

datatype jsval =
    JUndef
  | JNull
  | JBool bool
  | JNum int
  | JNaN
  | JInf bool
  | JStr string
  | JArr "jsval list"
  | JObj "(string \<times> jsval) list"

text \<open>Decimal rendering of an integer.\<close>

definition digit_char :: "nat \<Rightarrow> char" where
  "digit_char d = ''0123456789'' ! d"

fun show_nat :: "nat \<Rightarrow> string" where
  "show_nat n = (if n < 10 then [digit_char n] else show_nat (n div 10) @ [digit_char (n mod 10)])"

declare show_nat.simps [simp del]


text \<open>
  The double nearest to a natural number, ties to the even significand: every number below
  \<open>2 ^ 53\<close> is a double; above, 53 bits are kept; \<open>None\<close> is the overflow to
  \<^verbatim>\<open>Infinity\<close>.
\<close>

fun bitlen :: "nat \<Rightarrow> nat" where
  "bitlen n = (if n = 0 then 0 else Suc (bitlen (n div 2)))"

declare bitlen.simps [simp del]

definition round_double :: "nat \<Rightarrow> nat option" where
  "round_double y =
     (if y < 2 ^ 53 then Some y
      else
        let e = bitlen y - 53;
            q = y div 2 ^ e;
            r = y mod 2 ^ e;
            h = 2 ^ (e - 1);
            q' = (if h < r \<or> (r = h \<and> odd q) then q + 1 else q)
        in if q' * 2 ^ e < 2 ^ 1024 then Some (q' * 2 ^ e) else None)"

text \<open>
  \<^verbatim>\<open>Number::toString\<close> for a double \<open>y\<close> that is a natural number. Up to \<open>2 ^ 53\<close> all
  its digits are printed. Above, the digits are those of the decimal number with the fewest
  significant digits that still rounds to \<open>y\<close>, the nearest one if there are several, the
  even one if two are as near: \<open>shortest_from j y\<close> looks for it among the multiples of
  \<open>10 ^ j\<close> next to \<open>y\<close>, from the largest \<open>j\<close> down. It is printed in full below
  \<open>10 ^ 21\<close> and with an exponent from there on.
\<close>

primrec shortest_from :: "nat \<Rightarrow> nat \<Rightarrow> nat" where
  "shortest_from 0 y = y"
| "shortest_from (Suc j) y =
     (let p = 10 ^ Suc j;
          lo = (y div p) * p;
          hi = lo + p;
          lo_ok = (lo \<noteq> 0 \<and> round_double lo = Some y);
          hi_ok = (round_double hi = Some y)
      in if lo_ok \<and> hi_ok
         then (if y - lo < hi - y then lo
               else if hi - y < y - lo then hi
               else if even (lo div p) then lo else hi)
         else if lo_ok then lo
         else if hi_ok then hi
         else shortest_from j y)"

definition shortest :: "nat \<Rightarrow> nat" where
  "shortest y = shortest_from (length (show_nat y) - 1) y"

definition exp_text :: "nat \<Rightarrow> string" where
  "exp_text s =
     (let ds = show_nat s;
          sig = rev (dropWhile (\<lambda>c. c = CHR ''0'') (rev ds))
      in (if length sig \<le> 1 then sig else hd sig # CHR ''.'' # tl sig)
           @ ''e+'' @ show_nat (length ds - 1))"

definition nat_text :: "nat \<Rightarrow> string" where
  "nat_text y =
     (if y \<le> 2 ^ 53 then show_nat y
      else if shortest y < 10 ^ 21 then show_nat (shortest y)
      else exp_text (shortest y))"

definition number_text :: "int \<Rightarrow> string" where
  "number_text i = (if i < 0 then CHR ''-'' # nat_text (nat (- i)) else nat_text (nat i))"

primrec join :: "string \<Rightarrow> string list \<Rightarrow> string" where
  "join sep [] = []"
| "join sep (x # xs) = (if xs = [] then x else x @ sep @ join sep xs)"

text \<open>
  Exceptions: the engine's \<^verbatim>\<open>TypeError\<close> (reading a property of \<^verbatim>\<open>null\<close> or
  \<^verbatim>\<open>undefined\<close>, calling what is not a function, an object that cannot be made a string)
  and an \<^verbatim>\<open>Error\<close> raised by a library with its message. The wording of the engine's
  own message is not modelled.
\<close>

datatype exn = TypeError | Error string

fun message :: "exn \<Rightarrow> string" where
  "message TypeError = ''TypeError''"
| "message (Error m) = m"

text \<open>
  \<^verbatim>\<open>ToString\<close>, which a template literal, \<^verbatim>\<open>String(v)\<close>, \<^verbatim>\<open>parseInt(v)\<close> and
  \<^verbatim>\<open>v + 'text'\<close> apply to their operand. An array joins its elements with commas, printing
  \<^verbatim>\<open>null\<close> and \<^verbatim>\<open>undefined\<close> elements as nothing. An object prints as
  \<^verbatim>\<open>[object Object]\<close> through the \<^verbatim>\<open>toString\<close> it inherits; when it has a property
  \<^verbatim>\<open>toString\<close> of its own, which in a value that came from JSON is never a function,
  the conversion throws \<^verbatim>\<open>TypeError\<close>, also for an element of an array.
\<close>

fun toString :: "jsval \<Rightarrow> exn + string"
  and toString_elems :: "jsval list \<Rightarrow> exn + string list" where
  "toString JUndef = Inr ''undefined''"
| "toString JNull = Inr ''null''"
| "toString (JBool b) = Inr (if b then ''true'' else ''false'')"
| "toString (JNum n) = Inr (number_text n)"
| "toString JNaN = Inr ''NaN''"
| "toString (JInf neg) = Inr (if neg then ''-Infinity'' else ''Infinity'')"
| "toString (JStr s) = Inr s"
| "toString (JArr xs) =
     (case toString_elems xs of Inl e \<Rightarrow> Inl e | Inr ss \<Rightarrow> Inr (join '','' ss))"
| "toString (JObj kvs) =
     (if ''toString'' \<in> set (map fst kvs) then Inl TypeError else Inr ''[object Object]'')"
| "toString_elems [] = Inr []"
| "toString_elems (x # xs) =
     (case (if x = JUndef \<or> x = JNull then Inr [] else toString x) of
        Inl e \<Rightarrow> Inl e
      | Inr s \<Rightarrow>
          (case toString_elems xs of Inl e \<Rightarrow> Inl e | Inr ss \<Rightarrow> Inr (s # ss)))"

section \<open>The digest: MD5 (RFC 1321)\<close>

text \<open>
  \<^verbatim>\<open>createHash('md5')\<close> is Node's implementation of MD5. It is written out here from
  RFC 1321: the message is padded to a multiple of 64 bytes, each block is read as sixteen
  little-endian 32-bit words and run through 64 steps, and the four state words are written
  out little-endian.
\<close>

type_synonym u32 = "32 word"
type_synonym byte = "8 word"
type_synonym md5_state = "u32 \<times> u32 \<times> u32 \<times> u32"

definition md5_K :: "u32 list" where
  "md5_K =
    [0xd76aa478, 0xe8c7b756, 0x242070db, 0xc1bdceee, 0xf57c0faf, 0x4787c62a, 0xa8304613, 0xfd469501,
     0x698098d8, 0x8b44f7af, 0xffff5bb1, 0x895cd7be, 0x6b901122, 0xfd987193, 0xa679438e, 0x49b40821,
     0xf61e2562, 0xc040b340, 0x265e5a51, 0xe9b6c7aa, 0xd62f105d, 0x02441453, 0xd8a1e681, 0xe7d3fbc8,
     0x21e1cde6, 0xc33707d6, 0xf4d50d87, 0x455a14ed, 0xa9e3e905, 0xfcefa3f8, 0x676f02d9, 0x8d2a4c8a,
     0xfffa3942, 0x8771f681, 0x6d9d6122, 0xfde5380c, 0xa4beea44, 0x4bdecfa9, 0xf6bb4b60, 0xbebfbc70,
     0x289b7ec6, 0xeaa127fa, 0xd4ef3085, 0x04881d05, 0xd9d4d039, 0xe6db99e5, 0x1fa27cf8, 0xc4ac5665,
     0xf4292244, 0x432aff97, 0xab9423a7, 0xfc93a039, 0x655b59c3, 0x8f0ccc92, 0xffeff47d, 0x85845dd1,
     0x6fa87e4f, 0xfe2ce6e0, 0xa3014314, 0x4e0811a1, 0xf7537e82, 0xbd3af235, 0x2ad7d2bb, 0xeb86d391]"

definition md5_S :: "nat list" where
  "md5_S =
    [7, 12, 17, 22, 7, 12, 17, 22, 7, 12, 17, 22, 7, 12, 17, 22,
     5, 9, 14, 20, 5, 9, 14, 20, 5, 9, 14, 20, 5, 9, 14, 20,
     4, 11, 16, 23, 4, 11, 16, 23, 4, 11, 16, 23, 4, 11, 16, 23,
     6, 10, 15, 21, 6, 10, 15, 21, 6, 10, 15, 21, 6, 10, 15, 21]"

definition rotl32 :: "u32 \<Rightarrow> nat \<Rightarrow> u32" where
  "rotl32 x n = push_bit n x OR drop_bit (32 - n) x"

definition md5_F :: "nat \<Rightarrow> u32 \<Rightarrow> u32 \<Rightarrow> u32 \<Rightarrow> u32" where
  "md5_F i b c d =
     (if i < 16 then (b AND c) OR (NOT b AND d)
      else if i < 32 then (d AND b) OR (NOT d AND c)
      else if i < 48 then b XOR c XOR d
      else c XOR (b OR NOT d))"

definition md5_g :: "nat \<Rightarrow> nat" where
  "md5_g i =
     (if i < 16 then i
      else if i < 32 then (5 * i + 1) mod 16
      else if i < 48 then (3 * i + 5) mod 16
      else (7 * i) mod 16)"

fun md5_step :: "u32 list \<Rightarrow> md5_state \<Rightarrow> nat \<Rightarrow> md5_state" where
  "md5_step M (a, b, c, d) i =
     (d, b + rotl32 (a + md5_F i b c d + md5_K ! i + M ! md5_g i) (md5_S ! i), b, c)"

primrec le32 :: "byte list \<Rightarrow> u32" where
  "le32 [] = 0"
| "le32 (b # bs) = ucast b + push_bit 8 (le32 bs)"

primrec groups :: "nat \<Rightarrow> nat \<Rightarrow> 'a list \<Rightarrow> 'a list list" where
  "groups k 0 xs = []"
| "groups k (Suc n) xs = take k xs # groups k n (drop k xs)"

definition md5_rounds :: "u32 list \<Rightarrow> md5_state \<Rightarrow> md5_state" where
  "md5_rounds M s = foldl (md5_step M) s [0..<64]"

fun md5_add :: "md5_state \<Rightarrow> md5_state \<Rightarrow> md5_state" where
  "md5_add (a0, b0, c0, d0) (a, b, c, d) = (a0 + a, b0 + b, c0 + c, d0 + d)"

definition md5_block :: "md5_state \<Rightarrow> byte list \<Rightarrow> md5_state" where
  "md5_block s blk = md5_add s (md5_rounds (map le32 (groups 4 16 blk)) s)"

definition bytes_le :: "nat \<Rightarrow> nat \<Rightarrow> byte list" where
  "bytes_le k n = map (\<lambda>i. of_nat (n div 256 ^ i)) [0..<k]"

definition md5_pad :: "byte list \<Rightarrow> byte list" where
  "md5_pad bs =
     bs @ [0x80] @ replicate ((119 - length bs mod 64) mod 64) 0 @ bytes_le 8 (8 * length bs)"

definition md5_init :: md5_state where
  "md5_init = (0x67452301, 0xefcdab89, 0x98badcfe, 0x10325476)"

fun md5_out :: "md5_state \<Rightarrow> byte list" where
  "md5_out (a, b, c, d) = concat (map (\<lambda>w. bytes_le 4 (unat w)) [a, b, c, d])"

definition md5 :: "byte list \<Rightarrow> byte list" where
  "md5 bs =
     (let p = md5_pad bs
      in md5_out (foldl md5_block md5_init (groups 64 (length p div 64) p)))"

text \<open>\<^verbatim>\<open>digest('hex')\<close>: two lower-case hexadecimal digits per byte.\<close>

definition hex_digit :: "nat \<Rightarrow> char" where
  "hex_digit n = ''0123456789abcdef'' ! (n mod 16)"

definition hex :: "byte list \<Rightarrow> string" where
  "hex bs = concat (map (\<lambda>b. [hex_digit (unat b div 16), hex_digit (unat b)]) bs)"

text \<open>
  \<^verbatim>\<open>toUpperCase\<close> on the letters \<^verbatim>\<open>a\<close> to \<^verbatim>\<open>z\<close>; every other byte is kept. This is
  what JavaScript does on ASCII text, the only text the module upper-cases.
\<close>

definition upper_char :: "char \<Rightarrow> char" where
  "upper_char c =
     (case map_of (zip ''abcdefghijklmnopqrstuvwxyz'' ''ABCDEFGHIJKLMNOPQRSTUVWXYZ'') c of
        Some u \<Rightarrow> u
      | None \<Rightarrow> c)"

definition toUpperCase :: "string \<Rightarrow> string" where
  "toUpperCase s = map upper_char s"

text \<open>The bytes \<^verbatim>\<open>update\<close> hashes for a string: its UTF-8 encoding.\<close>

definition utf8 :: "string \<Rightarrow> byte list" where
  "utf8 s = map of_char s"

section \<open>The digest engine: \<^verbatim>\<open>_computeAuth\<close>\<close>

definition salt :: string where
  "salt = ''SwPx0b'' @ ''jRFqVWm6'' @ ''LCQ8et9h'' @ ''hYt26L8G'' @ ''ktOVB8d1R''"

text \<open>
  \<^verbatim>\<open>challenge + salt\<close> with a string on the right is string concatenation of
  \<^verbatim>\<open>ToString(challenge)\<close> and the salt, and throws what that conversion throws.
\<close>

definition computeAuth :: "jsval \<Rightarrow> exn + string" where
  "computeAuth challenge =
     (case toString challenge of
        Inl e \<Rightarrow> Inl e
      | Inr c \<Rightarrow> Inr (toUpperCase (hex (md5 (utf8 (c @ salt))))))"

section \<open>Built-in string functions\<close>

text \<open>
  The white space \<^verbatim>\<open>trim\<close> and \<^verbatim>\<open>parseInt\<close> strip: the code points of ECMAScript's
  \<^verbatim>\<open>WhiteSpace\<close> and \<^verbatim>\<open>LineTerminator\<close>, each given by its UTF-8 bytes.
\<close>

definition js_whitespace :: "string list" where
  "js_whitespace =
     [[CHR 0x09], [CHR 0x0A], [CHR 0x0B], [CHR 0x0C], [CHR 0x0D], [CHR 0x20],
      [CHR 0xC2, CHR 0xA0], [CHR 0xE1, CHR 0x9A, CHR 0x80],
      [CHR 0xE2, CHR 0x80, CHR 0x80], [CHR 0xE2, CHR 0x80, CHR 0x81],
      [CHR 0xE2, CHR 0x80, CHR 0x82], [CHR 0xE2, CHR 0x80, CHR 0x83],
      [CHR 0xE2, CHR 0x80, CHR 0x84], [CHR 0xE2, CHR 0x80, CHR 0x85],
      [CHR 0xE2, CHR 0x80, CHR 0x86], [CHR 0xE2, CHR 0x80, CHR 0x87],
      [CHR 0xE2, CHR 0x80, CHR 0x88], [CHR 0xE2, CHR 0x80, CHR 0x89],
      [CHR 0xE2, CHR 0x80, CHR 0x8A], [CHR 0xE2, CHR 0x80, CHR 0xA8],
      [CHR 0xE2, CHR 0x80, CHR 0xA9], [CHR 0xE2, CHR 0x80, CHR 0xAF],
      [CHR 0xE2, CHR 0x81, CHR 0x9F], [CHR 0xE3, CHR 0x80, CHR 0x80],
      [CHR 0xEF, CHR 0xBB, CHR 0xBF]]"

text \<open>The number of bytes of the pattern that starts \<open>s\<close>, or 0 when none does.\<close>

primrec match_len :: "string list \<Rightarrow> string \<Rightarrow> nat" where
  "match_len [] s = 0"
| "match_len (w # ws) s =
     (if w \<noteq> [] \<and> take (length w) s = w then length w else match_len ws s)"

lemma match_len_le: "match_len ws s \<le> length s"
proof (induction ws)
  case Nil
  then show ?case by simp
next
  case (Cons w ws)
  have "take (length w) s = w \<Longrightarrow> length w \<le> length s"
    by (metis length_take min.cobounded1)
  with Cons show ?case by simp
qed

function strip :: "string list \<Rightarrow> string \<Rightarrow> string" where
  "strip ws s = (if match_len ws s = 0 then s else strip ws (drop (match_len ws s) s))"
  by pat_completeness auto
termination
proof (relation "measure (\<lambda>(ws, s). length s)")
  show "wf (measure (\<lambda>(ws, s). length s))" by simp
next
  fix ws :: "string list" and s :: string
  assume "match_len ws s \<noteq> 0"
  moreover have "match_len ws s \<le> length s" by (rule match_len_le)
  ultimately show "((ws, drop (match_len ws s) s), (ws, s)) \<in> measure (\<lambda>(ws, s). length s)"
    by simp
qed

declare strip.simps [simp del]

definition trimStart :: "string \<Rightarrow> string" where
  "trimStart s = strip js_whitespace s"

definition trimEnd :: "string \<Rightarrow> string" where
  "trimEnd s = rev (strip (map rev js_whitespace) (rev s))"

definition trim :: "string \<Rightarrow> string" where
  "trim s = trimEnd (trimStart s)"

text \<open>
  \<^verbatim>\<open>parseInt(s)\<close> with no radix: leading white space and one sign are dropped, a
  \<^verbatim>\<open>0x\<close> or \<^verbatim>\<open>0X\<close> prefix selects radix 16 and is dropped, and the longest run of
  digits of the radix is read; no digit at all gives \<^verbatim>\<open>NaN\<close>. The result is the double
  nearest to the number read (Node evaluates the digits exactly), an infinity when it is
  too large.
\<close>

definition digit_val :: "char \<Rightarrow> nat option" where
  "digit_val c =
     map_of (zip ''0123456789abcdef'' [0, 1, 2, 3, 4, 5, 6, 7, 8, 9, 10, 11, 12, 13, 14, 15]
             @ zip ''ABCDEF'' [10, 11, 12, 13, 14, 15]) c"

definition is_digit :: "nat \<Rightarrow> char \<Rightarrow> bool" where
  "is_digit radix c = (case digit_val c of Some d \<Rightarrow> d < radix | None \<Rightarrow> False)"

definition digits_value :: "nat \<Rightarrow> string \<Rightarrow> nat" where
  "digits_value radix z =
     foldl (\<lambda>acc c. acc * radix + (case digit_val c of Some d \<Rightarrow> d | None \<Rightarrow> 0)) 0 z"

definition parseInt :: "string \<Rightarrow> jsval" where
  "parseInt input =
     (let s1 = trimStart input;
          neg = (take 1 s1 = ''-'');
          s2 = (if take 1 s1 = ''-'' \<or> take 1 s1 = ''+'' then drop 1 s1 else s1);
          hex_prefix = (take 2 s2 = ''0x'' \<or> take 2 s2 = ''0X'');
          radix = (if hex_prefix then 16 else 10);
          s3 = (if hex_prefix then drop 2 s2 else s2);
          z = takeWhile (is_digit radix) s3
      in if z = [] then JNaN
         else (case round_double (digits_value radix z) of
                 None \<Rightarrow> JInf neg
               | Some v \<Rightarrow> JNum ((if neg then - 1 else 1) * int v)))"

text \<open>
  \<^verbatim>\<open>JSON.stringify\<close>. A string is quoted with the two-character escapes of JSON and
  \<^verbatim>\<open>\u00XX\<close> for the other control characters; \<^verbatim>\<open>NaN\<close> and the infinities print as
  \<^verbatim>\<open>null\<close>; an \<^verbatim>\<open>undefined\<close> array element prints as \<^verbatim>\<open>null\<close> and an
  \<^verbatim>\<open>undefined\<close> property is left out; \<^verbatim>\<open>undefined\<close> itself has no text.
\<close>

definition escape_char :: "char \<Rightarrow> string" where
  "escape_char c =
     (if c = CHR 0x22 then [CHR 0x5C, CHR 0x22]
      else if c = CHR 0x5C then [CHR 0x5C, CHR 0x5C]
      else if c = CHR 0x08 then [CHR 0x5C, CHR ''b'']
      else if c = CHR 0x0C then [CHR 0x5C, CHR ''f'']
      else if c = CHR 0x0A then [CHR 0x5C, CHR ''n'']
      else if c = CHR 0x0D then [CHR 0x5C, CHR ''r'']
      else if c = CHR 0x09 then [CHR 0x5C, CHR ''t'']
      else if (of_char c :: nat) < 32
        then [CHR 0x5C, CHR ''u'', CHR ''0'', CHR ''0'',
              hex_digit (of_char c div 16), hex_digit (of_char c)]
      else [c])"

definition quote :: "string \<Rightarrow> string" where
  "quote s = [CHR 0x22] @ concat (map escape_char s) @ [CHR 0x22]"

fun stringify :: "jsval \<Rightarrow> string option" where
  "stringify JUndef = None"
| "stringify JNull = Some ''null''"
| "stringify (JBool b) = Some (if b then ''true'' else ''false'')"
| "stringify (JNum n) = Some (number_text n)"
| "stringify JNaN = Some ''null''"
| "stringify (JInf neg) = Some ''null''"
| "stringify (JStr s) = Some (quote s)"
| "stringify (JArr xs) =
     Some (''['' @ join '','' (map (\<lambda>x. case stringify x of None \<Rightarrow> ''null'' | Some t \<Rightarrow> t) xs)
           @ '']'')"
| "stringify (JObj kvs) =
     Some (''{'' @ join '',''
             (concat (map (\<lambda>kv. case stringify (snd kv) of
                                   None \<Rightarrow> []
                                 | Some t \<Rightarrow> [quote (fst kv) @ '':'' @ t]) kvs))
           @ ''}'')"

section \<open>Property access and truthiness\<close>

text \<open>
  \<^verbatim>\<open>v.k\<close> for the property names the module reads (\<^verbatim>\<open>type\<close>, \<^verbatim>\<open>subtype\<close>,
  \<^verbatim>\<open>arguments\<close>, \<^verbatim>\<open>challenge\<close>, \<^verbatim>\<open>success\<close>, \<^verbatim>\<open>result\<close>, \<^verbatim>\<open>index\<close>, \<^verbatim>\<open>label\<close>,
  \<^verbatim>\<open>uid\<close>, \<^verbatim>\<open>name\<close>): none of them is defined on a number, a boolean, a string or an
  array.
\<close>

fun get_prop :: "jsval \<Rightarrow> string \<Rightarrow> exn + jsval" where
  "get_prop JUndef k = Inl TypeError"
| "get_prop JNull k = Inl TypeError"
| "get_prop (JObj kvs) k = Inr (case map_of kvs k of Some v \<Rightarrow> v | None \<Rightarrow> JUndef)"
| "get_prop v k = Inr JUndef"

fun truthy :: "jsval \<Rightarrow> bool" where
  "truthy JUndef = False"
| "truthy JNull = False"
| "truthy (JBool b) = b"
| "truthy (JNum n) = (n \<noteq> 0)"
| "truthy JNaN = False"
| "truthy (JInf neg) = True"
| "truthy (JStr s) = (s \<noteq> [])"
| "truthy (JArr xs) = True"
| "truthy (JObj kvs) = True"

text \<open>\<^verbatim>\<open>a || b\<close>.\<close>

definition js_or :: "jsval \<Rightarrow> jsval \<Rightarrow> jsval" where
  "js_or a b = (if truthy a then a else b)"

text \<open>\<^verbatim>\<open>v.trim()\<close>: only a string has the method.\<close>

fun call_trim :: "jsval \<Rightarrow> exn + string" where
  "call_trim (JStr s) = Inr (trim s)"
| "call_trim v = Inl TypeError"

section \<open>The instance and what it does to the outside\<close>

text \<open>
  The configuration. \<^verbatim>\<open>host\<close> is whatever the host application stored. \<^verbatim>\<open>port\<close> is
  the value of a text input with a default (line 23): a string, or an integer, or missing
  in a configuration that was stored without it.
\<close>

datatype port_value = NoPort | PortText string | PortNumber int

record config =
  host :: jsval
  port :: port_value

text \<open>
  The fields of \<^verbatim>\<open>LiveGradeInstance\<close>. A WebSocket object and a timer are known by a
  handle, a number; \<open>next_sock\<close> and \<open>next_timer\<close> are the handles that the next
  \<^verbatim>\<open>new WebSocket\<close> and the next \<^verbatim>\<open>setTimeout\<close> return. \<open>None\<close> is \<^verbatim>\<open>null\<close>.
\<close>

record state =
  config :: config
  ws :: "nat option"
  reconnectTimer :: "nat option"
  lastAuthCode :: "string option"
  slots :: jsval
  looks :: jsval
  next_sock :: nat
  next_timer :: nat

datatype status = Connecting | Ok | BadConfig | ConnectionFailure | Disconnected

text \<open>
  The callback given to \<^verbatim>\<open>setTimeout\<close>: the reconnect of line 81, or the empty
  settling callback of line 184 with the slot it prints.
\<close>

datatype timer_cb = ReconnectCb | SettleCb jsval

text \<open>
  Where \<^verbatim>\<open>_fetchSlotsAndLooks\<close> is suspended: at the request for the slots or at the
  request for the looks, with its constants \<^verbatim>\<open>host\<close>, \<^verbatim>\<open>port\<close> and \<^verbatim>\<open>auth\<close>.
\<close>

datatype cont =
    SlotsCont string string "string option"
  | LooksCont string string "string option"

text \<open>
  The calls the module makes on its surroundings: \<^verbatim>\<open>updateStatus\<close>, \<^verbatim>\<open>log\<close>,
  \<^verbatim>\<open>new WebSocket\<close> (the handle it returns, the URL, the sub-protocols), \<^verbatim>\<open>send\<close> and
  \<^verbatim>\<open>close\<close> on a socket, \<^verbatim>\<open>setTimeout\<close> (the handle it returns, the callback, the delay
  in milliseconds), \<^verbatim>\<open>clearTimeout\<close>, \<^verbatim>\<open>fetch\<close> (the URL, and where the function that
  awaits it is suspended), \<^verbatim>\<open>setActionDefinitions\<close> (the slot choices and the look
  choices); and an exception that leaves the module, thrown to its caller or rejecting a
  promise that nobody handles.
\<close>

datatype effect =
    UpdateStatus status "string option"
  | Log string string
  | WsNew nat string "string list"
  | WsSend nat string
  | WsClose nat
  | SetTimeout nat timer_cb nat
  | ClearTimeout nat
  | Fetch string cont
  | SetActionDefinitions "jsval list" "jsval list"
  | Unhandled exn

text \<open>
  What running a piece of the module gives: the calls it made, in order, the instance
  afterwards, and the exception it threw, if any.
\<close>

type_synonym outcome = "effect list \<times> state \<times> exn option"

text \<open>
  The outside, as a piece of the module finds it when it runs: \<^verbatim>\<open>JSON.parse\<close> (\<open>None\<close>
  when it throws), the constructor of the \<^verbatim>\<open>ws\<close> library (\<open>Some m\<close> when it throws an
  error with message \<open>m\<close> for this URL), and the \<^verbatim>\<open>readyState\<close> of each socket.
\<close>

datatype ready_state = CONNECTING | OPEN | CLOSING | CLOSED

record env =
  json_parse :: "string \<Rightarrow> jsval option"
  ws_ctor_error :: "string \<Rightarrow> string option"
  readyState :: "nat \<Rightarrow> ready_state"

text \<open>UTF-8 of the pictographs in the log messages.\<close>

definition arrow :: string where "arrow = [CHR 0xE2, CHR 0x86, CHR 0x92]"
definition padlock :: string where "padlock = [CHR 0xF0, CHR 0x9F, CHR 0x94, CHR 0x90]"
definition tools :: string where "tools = [CHR 0xF0, CHR 0x9F, CHR 0x9B, CHR 0xA0]"
definition check_mark :: string where "check_mark = [CHR 0xE2, CHR 0x9C, CHR 0x85]"
definition cross_mark :: string where "cross_mark = [CHR 0xE2, CHR 0x9D, CHR 0x8C]"
definition ellipsis :: string where "ellipsis = [CHR 0xE2, CHR 0x80, CHR 0xA6]"

text \<open>
  The constructor, lines 11 to 18. It does not set \<^verbatim>\<open>this.config\<close>; \<^verbatim>\<open>init\<close> and
  \<^verbatim>\<open>configUpdated\<close> store it before anything reads it, and until one of them has run
  there is no socket, timer or action that could run another piece of the module.
\<close>

definition new_instance :: state where
  "new_instance =
     \<lparr>config = \<lparr>host = JUndef, port = NoPort\<rparr>, ws = None, reconnectTimer = None,
      lastAuthCode = None, slots = JArr [], looks = JArr [], next_sock = 0, next_timer = 0\<rparr>"

section \<open>Connection manager\<close>

definition scheduleReconnect :: "state \<Rightarrow> effect list \<times> state" where
  "scheduleReconnect st =
     ((case reconnectTimer st of Some t \<Rightarrow> [ClearTimeout t] | None \<Rightarrow> [])
        @ [SetTimeout (next_timer st) ReconnectCb 5000],
      st\<lparr>reconnectTimer := Some (next_timer st), next_timer := Suc (next_timer st)\<rparr>)"

text \<open>\<^verbatim>\<open>String(this.config.port||'9000').trim()\<close>.\<close>

fun port_string :: "port_value \<Rightarrow> string" where
  "port_string NoPort = ''9000''"
| "port_string (PortText p) = (if p = [] then ''9000'' else p)"
| "port_string (PortNumber n) = (if n = 0 then ''9000'' else number_text n)"

definition port_text :: "state \<Rightarrow> string" where
  "port_text st = trim (port_string (port (config st)))"

definition connectWebSocket :: "env \<Rightarrow> state \<Rightarrow> outcome" where
  "connectWebSocket e st =
     (case call_trim (js_or (host (config st)) (JStr [])) of
        Inl x \<Rightarrow> ([], st, Some x)
      | Inr h \<Rightarrow>
          if h = [] then ([UpdateStatus BadConfig (Some ''Enter server IP'')], st, None)
          else
            let url = ''ws://'' @ h @ '':'' @ port_text st;
                connecting = Log ''info'' (arrow @ '' Connecting to '' @ url)
            in (case ws_ctor_error e url of
                  None \<Rightarrow>
                    ([connecting, WsNew (next_sock st) url [''livegrade-live-updates'']],
                     st\<lparr>ws := Some (next_sock st), next_sock := Suc (next_sock st)\<rparr>, None)
                | Some m \<Rightarrow>
                    ([connecting, Log ''error'' (''Connect failed: '' @ m),
                      UpdateStatus ConnectionFailure (Some m)]
                       @ fst (scheduleReconnect st),
                     snd (scheduleReconnect st), None)))"

text \<open>The four handlers that lines 58 to 71 put on every socket.\<close>

definition on_open :: "string \<Rightarrow> state \<Rightarrow> outcome" where
  "on_open url st =
     ([UpdateStatus Ok None, Log ''info'' (''WebSocket opened to '' @ url)], st, None)"

definition on_error :: "string \<Rightarrow> state \<Rightarrow> outcome" where
  "on_error m st =
     ([Log ''error'' (''WS error: '' @ m), UpdateStatus ConnectionFailure (Some m)]
        @ fst (scheduleReconnect st),
      snd (scheduleReconnect st), None)"

definition on_close :: "state \<Rightarrow> outcome" where
  "on_close st =
     (Log ''warn'' ''WS closed, scheduling reconnect'' # fst (scheduleReconnect st),
      snd (scheduleReconnect st), None)"

definition close_ws :: "state \<Rightarrow> effect list" where
  "close_ws st = (case ws st of Some h \<Rightarrow> [WsClose h] | None \<Rightarrow> [])"

definition init :: "env \<Rightarrow> config \<Rightarrow> state \<Rightarrow> outcome" where
  "init e cfg st =
     (case connectWebSocket e (st\<lparr>config := cfg\<rparr>) of
        (fx, st', x) \<Rightarrow> (UpdateStatus Connecting None # fx, st', x))"

definition configUpdated :: "env \<Rightarrow> config \<Rightarrow> state \<Rightarrow> outcome" where
  "configUpdated e cfg st =
     (case connectWebSocket e (st\<lparr>config := cfg\<rparr>) of
        (fx, st', x) \<Rightarrow> (close_ws st @ UpdateStatus Connecting None # fx, st', x))"

definition destroy :: "state \<Rightarrow> outcome" where
  "destroy st =
     (close_ws st
        @ (case reconnectTimer st of Some t \<Rightarrow> [ClearTimeout t] | None \<Rightarrow> [])
        @ [UpdateStatus Disconnected None],
      st, None)"

section \<open>Catalog fetcher\<close>

text \<open>
  How a request ends: \<^verbatim>\<open>fetch\<close> rejects, or \<^verbatim>\<open>res.json()\<close> rejects, each with an
  error that has a message, or the body is parsed. The two \<^verbatim>\<open>await\<close>s of one request
  are taken as one suspension: the module does nothing between them.
\<close>

datatype http_result = NetworkFailure string | ParseFailure string | Body jsval

definition auth_text :: "string option \<Rightarrow> string" where
  "auth_text a = (case a of None \<Rightarrow> ''null'' | Some c \<Rightarrow> c)"

definition slots_url :: "string \<Rightarrow> string \<Rightarrow> string option \<Rightarrow> string" where
  "slots_url h p a = ''http://'' @ h @ '':'' @ p @ ''/devices/slots?auth='' @ auth_text a"

definition looks_url :: "string \<Rightarrow> string \<Rightarrow> string option \<Rightarrow> string" where
  "looks_url h p a = ''http://'' @ h @ '':'' @ p @ ''/library/grades?auth='' @ auth_text a"

text \<open>
  \<^verbatim>\<open>xs.map(f)\<close> where \<open>f\<close> may throw: the first exception ends the loop.
\<close>

primrec map_exn :: "('a \<Rightarrow> exn + 'b) \<Rightarrow> 'a list \<Rightarrow> exn + 'b list" where
  "map_exn f [] = Inr []"
| "map_exn f (x # xs) =
     (case f x of
        Inl e \<Rightarrow> Inl e
      | Inr y \<Rightarrow> (case map_exn f xs of Inl e \<Rightarrow> Inl e | Inr ys \<Rightarrow> Inr (y # ys)))"

text \<open>\<^verbatim>\<open>v.map(f)\<close>: only an array has the method.\<close>

fun call_map :: "(jsval \<Rightarrow> exn + jsval) \<Rightarrow> jsval \<Rightarrow> exn + jsval list" where
  "call_map f (JArr xs) = map_exn f xs"
| "call_map f v = Inl TypeError"

definition slot_choice :: "jsval \<Rightarrow> exn + jsval" where
  "slot_choice s =
     (case get_prop s ''index'' of
        Inl e \<Rightarrow> Inl e
      | Inr i \<Rightarrow>
          (case toString i of
             Inl e \<Rightarrow> Inl e
           | Inr t \<Rightarrow>
               (case get_prop s ''label'' of
                  Inl e \<Rightarrow> Inl e
                | Inr l \<Rightarrow>
                    Inr (JObj [(''id'', JStr t), (''label'', js_or l (JStr (''Slot '' @ t)))]))))"

definition look_choice :: "jsval \<Rightarrow> exn + jsval" where
  "look_choice l =
     (case get_prop l ''uid'' of
        Inl e \<Rightarrow> Inl e
      | Inr u \<Rightarrow>
          (case get_prop l ''name'' of
             Inl e \<Rightarrow> Inl e
           | Inr n \<Rightarrow> Inr (JObj [(''id'', u), (''label'', n)])))"

text \<open>
  \<^verbatim>\<open>_buildApplyAction\<close>: the two choice lists, then \<^verbatim>\<open>setActionDefinitions\<close> with the
  one action \<^verbatim>\<open>applyGrade\<close>, whose callback is \<open>applyGrade\<close> below.
\<close>

definition buildApplyAction :: "state \<Rightarrow> exn + effect list" where
  "buildApplyAction st =
     (case call_map slot_choice (slots st) of
        Inl e \<Rightarrow> Inl e
      | Inr slotChoices \<Rightarrow>
          (case call_map look_choice (looks st) of
             Inl e \<Rightarrow> Inl e
           | Inr lookChoices \<Rightarrow> Inr [SetActionDefinitions slotChoices lookChoices]))"

text \<open>
  \<^verbatim>\<open>_fetchSlotsAndLooks\<close> up to its first \<^verbatim>\<open>await\<close>. Line 124 is outside the \<^verbatim>\<open>try\<close>:
  what it throws rejects the promise the function returns, which nobody handles.
\<close>

definition fetchSlotsAndLooks :: "state \<Rightarrow> effect list" where
  "fetchSlotsAndLooks st =
     (case call_trim (host (config st)) of
        Inl e \<Rightarrow> [Unhandled e]
      | Inr h \<Rightarrow>
          [Fetch (slots_url h (port_text st) (lastAuthCode st))
                 (SlotsCont h (port_text st) (lastAuthCode st))])"

definition fetch_failed :: "string \<Rightarrow> state \<Rightarrow> effect list \<times> state" where
  "fetch_failed m st = ([Log ''error'' (''Fetch error: '' @ m)], st)"

text \<open>
  The rest of \<^verbatim>\<open>_fetchSlotsAndLooks\<close>, from the suspension \<open>k\<close> on, when its request
  ends with \<open>r\<close>: lines 130 to 133 after the slots, lines 134 to 137 after the looks, and
  the \<^verbatim>\<open>catch\<close> of line 138 for everything thrown on the way.
\<close>

fun resume :: "cont \<Rightarrow> http_result \<Rightarrow> state \<Rightarrow> effect list \<times> state" where
  "resume k (NetworkFailure m) st = fetch_failed m st"
| "resume k (ParseFailure m) st = fetch_failed m st"
| "resume (SlotsCont h p a) (Body body) st =
     (case get_prop body ''result'' of
        Inl e \<Rightarrow> fetch_failed (message e) st
      | Inr r \<Rightarrow>
          ([Fetch (looks_url h p a) (LooksCont h p a)], st\<lparr>slots := js_or r (JArr [])\<rparr>))"
| "resume (LooksCont h p a) (Body body) st =
     (case get_prop body ''result'' of
        Inl e \<Rightarrow> fetch_failed (message e) st
      | Inr r \<Rightarrow>
          (case buildApplyAction (st\<lparr>looks := js_or r (JArr [])\<rparr>) of
             Inl e \<Rightarrow> fetch_failed (message e) (st\<lparr>looks := js_or r (JArr [])\<rparr>)
           | Inr fx \<Rightarrow> (fx, st\<lparr>looks := js_or r (JArr [])\<rparr>)))"

section \<open>Protocol handler\<close>

definition auth_response :: "string \<Rightarrow> jsval" where
  "auth_response code =
     JObj [(''type'', JStr ''authentication''),
           (''subtype'', JStr ''response''),
           (''arguments'', JObj [(''response'', JStr code), (''device'', JStr ''Companion'')])]"

text \<open>
  \<^verbatim>\<open>this.ws.send(JSON.stringify(v))\<close>. Reading \<^verbatim>\<open>send\<close> of \<^verbatim>\<open>null\<close> throws. The
  \<^verbatim>\<open>send\<close> of the \<^verbatim>\<open>ws\<close> library throws on a socket that is still connecting, puts
  the text on the wire of an open socket, and drops it without an error on a socket that is
  closing or closed (no callback is given); \<^verbatim>\<open>undefined\<close> is sent as the empty text.
\<close>

definition ws_send :: "env \<Rightarrow> state \<Rightarrow> jsval \<Rightarrow> exn + effect list" where
  "ws_send e st v =
     (case ws st of
        None \<Rightarrow> Inl TypeError
      | Some h \<Rightarrow>
          (case readyState e h of
             CONNECTING \<Rightarrow> Inl (Error ''WebSocket is not open: readyState 0 (CONNECTING)'')
           | OPEN \<Rightarrow> Inr [WsSend h (case stringify v of None \<Rightarrow> [] | Some t \<Rightarrow> t)]
           | CLOSING \<Rightarrow> Inr []
           | CLOSED \<Rightarrow> Inr []))"

text \<open>
  The two branches of \<^verbatim>\<open>_onWsMessage\<close>: lines 88 to 97 for a challenge, lines 100 to 106
  for a result.
\<close>

definition on_challenge :: "env \<Rightarrow> jsval \<Rightarrow> state \<Rightarrow> outcome" where
  "on_challenge e msg st =
     (case get_prop msg ''arguments'' of
        Inl x \<Rightarrow> ([], st, Some x)
      | Inr args \<Rightarrow>
          (case get_prop args ''challenge'' of
             Inl x \<Rightarrow> ([], st, Some x)
           | Inr chal \<Rightarrow>
               (case toString chal of
                  Inl x \<Rightarrow> ([], st, Some x)
                | Inr t \<Rightarrow>
                    (case computeAuth chal of
                       Inl x \<Rightarrow> ([Log ''info'' (padlock @ '' Challenge: '' @ t)], st, Some x)
                     | Inr code \<Rightarrow>
                         let logs = [Log ''info'' (padlock @ '' Challenge: '' @ t),
                                     Log ''info'' (tools @ '' Auth code: '' @ code)];
                             st' = st\<lparr>lastAuthCode := Some code\<rparr>
                         in (case ws_send e st' (auth_response code) of
                               Inl x \<Rightarrow> (logs, st', Some x)
                             | Inr fx \<Rightarrow> (logs @ fx, st', None))))))"

definition on_result :: "jsval \<Rightarrow> state \<Rightarrow> outcome" where
  "on_result msg st =
     (case get_prop msg ''arguments'' of
        Inl e \<Rightarrow> ([], st, Some e)
      | Inr args \<Rightarrow>
          (case get_prop args ''success'' of
             Inl e \<Rightarrow> ([], st, Some e)
           | Inr ok \<Rightarrow>
               if truthy ok
               then (Log ''info'' (check_mark @ '' Auth OK, fetching slots & looks'' @ ellipsis)
                       # fetchSlotsAndLooks st, st, None)
               else (case ws st of
                       None \<Rightarrow> ([Log ''error'' (cross_mark @ '' Auth failed, closing'')], st,
                                 Some TypeError)
                     | Some h \<Rightarrow>
                         ([Log ''error'' (cross_mark @ '' Auth failed, closing''), WsClose h], st,
                          None))))"

definition onWsMessage :: "env \<Rightarrow> string \<Rightarrow> state \<Rightarrow> outcome" where
  "onWsMessage e raw st =
     (case json_parse e raw of
        None \<Rightarrow> ([], st, None)
      | Some msg \<Rightarrow>
          (case get_prop msg ''type'' of
             Inl x \<Rightarrow> ([], st, Some x)
           | Inr ty \<Rightarrow>
               (case get_prop msg ''subtype'' of
                  Inl x \<Rightarrow> ([], st, Some x)
                | Inr sub \<Rightarrow>
                    if ty = JStr ''authentication'' \<and> sub = JStr ''challenge''
                      then on_challenge e msg st
                    else if ty = JStr ''authentication'' \<and> sub = JStr ''result''
                      then on_result msg st
                    else ([], st, None))))"

section \<open>Command dispatcher\<close>

text \<open>The options of an action as the host hands them to the callback.\<close>

record options =
  slot :: jsval
  look :: jsval

definition changeCmd :: "jsval \<Rightarrow> jsval" where
  "changeCmd s =
     JObj [(''type'', JStr ''command''), (''subtype'', JStr ''changeDevice''),
           (''arguments'', JObj [(''index'', s)])]"

definition applyCmd :: "jsval \<Rightarrow> jsval" where
  "applyCmd u =
     JObj [(''type'', JStr ''command''), (''subtype'', JStr ''applyGrade''),
           (''arguments'', JObj [(''uid'', u)])]"

definition applyGrade :: "env \<Rightarrow> options \<Rightarrow> state \<Rightarrow> outcome" where
  "applyGrade e opts st =
     (case toString (slot opts) of
        Inl x \<Rightarrow> ([], st, Some x)
      | Inr text \<Rightarrow>
          (case toString (parseInt text) of
             Inl x \<Rightarrow> ([], st, Some x)
           | Inr s \<Rightarrow>
               let log1 = Log ''info'' (arrow @ '' Changing to slot '' @ s)
               in (case ws_send e st (changeCmd (parseInt text)) of
                     Inl x \<Rightarrow> ([log1], st, Some x)
                   | Inr fx1 \<Rightarrow>
                       (case toString (look opts) of
                          Inl x \<Rightarrow> (log1 # fx1, st, Some x)
                        | Inr u \<Rightarrow>
                            let log2 = Log ''info''
                                         (arrow @ '' Applying UID '' @ u @ '' to slot '' @ s)
                            in (case ws_send e st (applyCmd (look opts)) of
                                  Inl x \<Rightarrow> (log1 # fx1 @ [log2], st, Some x)
                                | Inr fx2 \<Rightarrow>
                                    (log1 # fx1 @ log2 # fx2
                                       @ [SetTimeout (next_timer st) (SettleCb (parseInt text)) 500],
                                     st\<lparr>next_timer := Suc (next_timer st)\<rparr>, None))))))"

text \<open>What a timer runs when it fires.\<close>

fun run_timer :: "env \<Rightarrow> timer_cb \<Rightarrow> state \<Rightarrow> outcome" where
  "run_timer e ReconnectCb st = connectWebSocket e st"
| "run_timer e (SettleCb s) st =
     (case toString s of
        Inl x \<Rightarrow> ([], st, Some x)
      | Inr t \<Rightarrow>
          ([Log ''info'' (arrow @ '' Delay complete after applying grade to slot '' @ t)],
           st, None))"

section \<open>The event loop\<close>

text \<open>
  What exists outside the instance while it runs: the sockets that can still emit events,
  each with the URL its \<^verbatim>\<open>open\<close> handler prints; the \<^verbatim>\<open>readyState\<close> of every socket;
  the timers that are armed; the requests in flight, each with the suspended rest of
  \<^verbatim>\<open>_fetchSlotsAndLooks\<close>; whether the action has been defined; and everything the module
  has done so far.
\<close>

record world =
  inst :: state
  socks :: "(nat \<times> string) list"
  ready :: "nat \<Rightarrow> ready_state"
  timers :: "(nat \<times> timer_cb) list"
  requests :: "cont list"
  actions :: bool
  trace :: "effect list"

definition new_world :: world where
  "new_world =
     \<lparr>inst = new_instance, socks = [], ready = (\<lambda>h. CLOSED), timers = [], requests = [],
      actions = False, trace = []\<rparr>"

text \<open>
  What a call of the module does to the outside. A socket starts connecting when it is
  constructed; \<^verbatim>\<open>close()\<close> leaves a closed socket closed and makes any other one closing.
\<close>

fun apply_effect :: "world \<Rightarrow> effect \<Rightarrow> world" where
  "apply_effect w (WsNew h url ps) =
     w\<lparr>socks := socks w @ [(h, url)], ready := (ready w)(h := CONNECTING)\<rparr>"
| "apply_effect w (WsClose h) =
     w\<lparr>ready := (ready w)(h := (if ready w h = CLOSED then CLOSED else CLOSING))\<rparr>"
| "apply_effect w (SetTimeout t cb d) = w\<lparr>timers := timers w @ [(t, cb)]\<rparr>"
| "apply_effect w (ClearTimeout t) = w\<lparr>timers := filter (\<lambda>p. fst p \<noteq> t) (timers w)\<rparr>"
| "apply_effect w (Fetch url k) = w\<lparr>requests := requests w @ [k]\<rparr>"
| "apply_effect w (SetActionDefinitions ss ls) = w\<lparr>actions := True\<rparr>"
| "apply_effect w fx = w"

text \<open>
  The world after a piece of the module has run: its calls take effect in order, and an
  exception that leaves the module is recorded.
\<close>

definition absorb :: "world \<Rightarrow> outcome \<Rightarrow> world" where
  "absorb w out =
     (case out of
        (fx, st, x) \<Rightarrow>
          (foldl apply_effect (w\<lparr>inst := st\<rparr>) fx)
            \<lparr>trace := trace w @ fx @ (case x of None \<Rightarrow> [] | Some e \<Rightarrow> [Unhandled e])\<rparr>)"

datatype event =
    Init config
  | ConfigUpdated config
  | Destroy
  | SockOpen nat
  | SockMessage nat string
  | SockError nat string
  | SockClose nat
  | TimerFires nat
  | RequestEnds nat http_result
  | Action options

text \<open>The environment a handler finds: the sockets are in the state the world has them in.\<close>

definition outside :: "env \<Rightarrow> world \<Rightarrow> env" where
  "outside e w = e\<lparr>readyState := ready w\<rparr>"

text \<open>
  One turn of the event loop; \<open>None\<close> when the event cannot happen (a socket that is
  gone, an \<^verbatim>\<open>open\<close> of a socket that is not connecting, a timer that is not armed, no such
  request, an action that is not defined). A socket is open from its \<^verbatim>\<open>open\<close> event on,
  closing from its \<^verbatim>\<open>error\<close> event on, and closed when it emits \<^verbatim>\<open>close\<close>, after which
  it emits nothing; a timer fires once.
\<close>

fun step :: "env \<Rightarrow> world \<Rightarrow> event \<Rightarrow> world option" where
  "step e w (Init cfg) = Some (absorb w (init e cfg (inst w)))"
| "step e w (ConfigUpdated cfg) = Some (absorb w (configUpdated e cfg (inst w)))"
| "step e w Destroy = Some (absorb w (destroy (inst w)))"
| "step e w (SockOpen h) =
     (case map_of (socks w) h of
        None \<Rightarrow> None
      | Some url \<Rightarrow>
          (if ready w h = CONNECTING
           then Some (absorb (w\<lparr>ready := (ready w)(h := OPEN)\<rparr>) (on_open url (inst w)))
           else None))"
| "step e w (SockMessage h raw) =
     (case map_of (socks w) h of
        None \<Rightarrow> None
      | Some url \<Rightarrow> Some (absorb w (onWsMessage (outside e w) raw (inst w))))"
| "step e w (SockError h m) =
     (case map_of (socks w) h of
        None \<Rightarrow> None
      | Some url \<Rightarrow>
          Some (absorb (w\<lparr>ready := (ready w)(h := CLOSING)\<rparr>) (on_error m (inst w))))"
| "step e w (SockClose h) =
     (case map_of (socks w) h of
        None \<Rightarrow> None
      | Some url \<Rightarrow>
          Some (absorb (w\<lparr>socks := filter (\<lambda>p. fst p \<noteq> h) (socks w),
                          ready := (ready w)(h := CLOSED)\<rparr>)
                  (on_close (inst w))))"
| "step e w (TimerFires t) =
     (case map_of (timers w) t of
        None \<Rightarrow> None
      | Some cb \<Rightarrow>
          Some (absorb (w\<lparr>timers := filter (\<lambda>p. fst p \<noteq> t) (timers w)\<rparr>)
                  (run_timer e cb (inst w))))"
| "step e w (RequestEnds i r) =
     (if i < length (requests w)
      then Some (case resume (requests w ! i) r (inst w) of
                   (fx, st) \<Rightarrow>
                     absorb (w\<lparr>requests := take i (requests w) @ drop (Suc i) (requests w)\<rparr>)
                       (fx, st, None))
      else None)"
| "step e w (Action opts) =
     (if actions w then Some (absorb w (applyGrade (outside e w) opts (inst w))) else None)"

fun run_events :: "env \<Rightarrow> world \<Rightarrow> event list \<Rightarrow> world option" where
  "run_events e w [] = Some w"
| "run_events e w (ev # evs) =
     (case step e w ev of None \<Rightarrow> None | Some w' \<Rightarrow> run_events e w' evs)"

definition sent :: "effect list \<Rightarrow> (nat \<times> string) list" where
  "sent fx = concat (map (\<lambda>x. case x of WsSend h t \<Rightarrow> [(h, t)] | _ \<Rightarrow> []) fx)"

definition opened :: "effect list \<Rightarrow> nat list" where
  "opened fx = concat (map (\<lambda>x. case x of WsNew h u ps \<Rightarrow> [h] | _ \<Rightarrow> []) fx)"

text \<open>What a run leaves behind, read off its result.\<close>

definition fetched :: "effect list \<Rightarrow> (string \<times> cont) list" where
  "fetched fx = concat (map (\<lambda>x. case x of Fetch u k \<Rightarrow> [(u, k)] | _ \<Rightarrow> []) fx)"

definition trace_of :: "world option \<Rightarrow> effect list" where
  "trace_of r = (case r of None \<Rightarrow> [] | Some w \<Rightarrow> trace w)"

definition timers_of :: "world option \<Rightarrow> (nat \<times> timer_cb) list" where
  "timers_of r = (case r of None \<Rightarrow> [] | Some w \<Rightarrow> timers w)"

definition socks_of :: "world option \<Rightarrow> (nat \<times> string) list" where
  "socks_of r = (case r of None \<Rightarrow> [] | Some w \<Rightarrow> socks w)"

definition inst_of :: "world option \<Rightarrow> state" where
  "inst_of r = (case r of None \<Rightarrow> new_instance | Some w \<Rightarrow> inst w)"

fun is_reconfig :: "event \<Rightarrow> bool" where
  "is_reconfig (Init cfg) = True"
| "is_reconfig (ConfigUpdated cfg) = True"
| "is_reconfig ev = False"

text \<open>A piece of the module that opens no socket and keeps the configuration.\<close>


definition quiet :: "state \<Rightarrow> outcome \<Rightarrow> bool" where
  "quiet st out = (opened (fst out) = [] \<and> config (fst (snd out)) = config st)"

text \<open>The armed timers after one call, and after a list of calls.\<close>

fun timer_effect :: "(nat \<times> timer_cb) list \<Rightarrow> effect \<Rightarrow> (nat \<times> timer_cb) list" where
  "timer_effect ts (SetTimeout t cb d) = ts @ [(t, cb)]"
| "timer_effect ts (ClearTimeout t) = filter (\<lambda>p. fst p \<noteq> t) ts"
| "timer_effect ts x = ts"

definition timers_after :: "(nat \<times> timer_cb) list \<Rightarrow> effect list \<Rightarrow> (nat \<times> timer_cb) list" where
  "timers_after ts fx = foldl timer_effect ts fx"

text \<open>
  The armed timers have distinct handles, all of them handed out already, and an armed
  reconnect timer is the one the instance remembers.
\<close>

definition timers_ok :: "(nat \<times> timer_cb) list \<Rightarrow> state \<Rightarrow> bool" where
  "timers_ok ts st =
     (distinct (map fst ts)
      \<and> (\<forall>p \<in> set ts. fst p < next_timer st
            \<and> (snd p = ReconnectCb \<longrightarrow> reconnectTimer st = Some (fst p))))"

text \<open>A piece of the module keeps the timers in order.\<close>

definition keeps_timers :: "(nat \<times> timer_cb) list \<Rightarrow> outcome \<Rightarrow> bool" where
  "keeps_timers ts out = timers_ok (timers_after ts (fst out)) (fst (snd out))"

definition world_ok :: "world \<Rightarrow> bool" where
  "world_ok w = timers_ok (timers w) (inst w)"

section \<open>Sample frames, states and vectors\<close>

text \<open>
  Concrete inputs for the examples below: the three frames of the handshake with the values
  \<^verbatim>\<open>JSON.parse\<close> gives for them, an environment whose parser knows these frames and
  rejects every other text and whose sockets are open, an environment whose parser rejects
  everything, configurations,
  the instance once its first socket exists, worlds around it, a body of the slots
  endpoint, the two-block message of the test suite of RFC 1321 with its padded blocks, and
  the sixteen words of the padded message \<^verbatim>\<open>"abc123" + salt\<close>.
\<close>

definition challenge_frame :: string where
  \<open>challenge_frame =
     ''{"type":"authentication","subtype":"challenge","arguments":{"challenge":"abc123"}}''\<close>

definition challenge_msg :: jsval where
  "challenge_msg =
     JObj [(''type'', JStr ''authentication''), (''subtype'', JStr ''challenge''),
           (''arguments'', JObj [(''challenge'', JStr ''abc123'')])]"

definition result_frame :: "bool \<Rightarrow> string" where
  \<open>result_frame ok =
     ''{"type":"authentication","subtype":"result","arguments":{"success":''
       @ (if ok then ''true'' else ''false'') @ ''}}''\<close>

definition result_msg :: "bool \<Rightarrow> jsval" where
  "result_msg ok =
     JObj [(''type'', JStr ''authentication''), (''subtype'', JStr ''result''),
           (''arguments'', JObj [(''success'', JBool ok)])]"

definition sample_env :: env where
  "sample_env =
     \<lparr>json_parse = map_of [(challenge_frame, challenge_msg),
                           (result_frame True, result_msg True),
                           (result_frame False, result_msg False)],
      ws_ctor_error = (\<lambda>url. None),
      readyState = (\<lambda>h. OPEN)\<rparr>"

definition cfg0 :: config where
  "cfg0 = \<lparr>host = JStr ''10.0.0.5'', port = PortText ''9000''\<rparr>"

definition connected :: state where
  "connected = new_instance\<lparr>config := cfg0, ws := Some 0, next_sock := 1\<rparr>"


definition connected_world :: world where
  "connected_world =
     new_world\<lparr>inst := connected, socks := [(0, ''ws://10.0.0.5:9000'')],
               ready := (\<lambda>h. CLOSED)(0 := OPEN)\<rparr>"


definition quiet_env :: env where
  "quiet_env =
     \<lparr>json_parse = (\<lambda>raw. None), ws_ctor_error = (\<lambda>url. None), readyState = (\<lambda>h. CLOSED)\<rparr>"

definition blank_cfg :: config where
  "blank_cfg = \<lparr>host = JStr ''  '', port = PortText ''9000''\<rparr>"

definition waiting_world :: world where
  "waiting_world =
     new_world\<lparr>inst := new_instance\<lparr>config := blank_cfg, reconnectTimer := Some 0,
                                        next_timer := 1\<rparr>,
               timers := [(0, ReconnectCb)]\<rparr>"

definition slots_body :: jsval where
  "slots_body = JObj [(''result'', JArr [JObj [(''index'', JNum 1), (''label'', JStr ''Main'')]])]"

definition rfc_msg :: string where
  "rfc_msg =
     ''1234567890123456789012345678901234567890''
       @ ''1234567890123456789012345678901234567890''"

definition rfc_B0 :: "byte list" where
  "rfc_B0 =
    [49, 50, 51, 52, 53, 54, 55, 56, 57, 48, 49, 50, 51, 52, 53, 54, 55, 56, 57, 48,
     49, 50, 51, 52, 53, 54, 55, 56, 57, 48, 49, 50, 51, 52, 53, 54, 55, 56, 57, 48,
     49, 50, 51, 52, 53, 54, 55, 56, 57, 48, 49, 50, 51, 52, 53, 54, 55, 56, 57, 48,
     49, 50, 51, 52]"

definition rfc_M0 :: "u32 list" where
  "rfc_M0 =
    [875770417, 943142453, 842084409, 909456435, 809056311, 875770417, 943142453,
     842084409, 909456435, 809056311, 875770417, 943142453, 842084409, 909456435,
     809056311, 875770417]"

definition rfc_B1 :: "byte list" where
  "rfc_B1 =
    [53, 54, 55, 56, 57, 48, 49, 50, 51, 52, 53, 54, 55, 56, 57, 48, 128, 0, 0, 0, 0,
     0, 0, 0, 0, 0, 0, 0, 0, 0, 0, 0, 0, 0, 0, 0, 0, 0, 0, 0, 0, 0, 0, 0, 0, 0, 0, 0,
     0, 0, 0, 0, 0, 0, 0, 0, 128, 2, 0, 0, 0, 0, 0, 0]"

definition rfc_M1 :: "u32 list" where
  "rfc_M1 =
    [943142453, 842084409, 909456435, 809056311, 128, 0, 0, 0, 0, 0, 0, 0, 0, 0, 640, 0]"

definition fixed_M :: "u32 list" where
  "fixed_M =
     [828596833, 2001941298, 1647343696, 1900434026, 913135446, 944849740, 1748595813,
      846485864, 1194871862, 1448047723, 828651586, 32850, 0, 0, 360, 0]"


section \<open>Properties of the digest engine\<close>

lemma groups_numeral:
  "groups k (numeral n) xs = take k xs # groups k (pred_numeral n) (drop k xs)"
  by (simp add: numeral_eq_Suc)

lemma length_bytes_le: "length (bytes_le k n) = k"
  by (simp add: bytes_le_def)

lemma length_md5: "length (md5 bs) = 16"
proof -
  obtain a b c d where "foldl md5_block md5_init
      (groups 64 (length (md5_pad bs) div 64) (md5_pad bs)) = (a, b, c, d)"
    by (metis prod_cases4)
  then show ?thesis
    by (simp add: md5_def Let_def length_bytes_le)
qed

lemma length_hex: "length (hex bs) = 2 * length bs"
  by (induction bs) (simp_all add: hex_def)

lemma upper_hex_digit_aux:
  assumes "k < 16"
  shows "upper_char (''0123456789abcdef'' ! k) \<in> set ''0123456789ABCDEF''"
proof -
  from assms have "k = 0 \<or> k = 1 \<or> k = 2 \<or> k = 3 \<or> k = 4 \<or> k = 5 \<or> k = 6 \<or> k = 7
      \<or> k = 8 \<or> k = 9 \<or> k = 10 \<or> k = 11 \<or> k = 12 \<or> k = 13 \<or> k = 14 \<or> k = 15"
    by arith
  then show ?thesis
    by (elim disjE) (simp_all add: upper_char_def)
qed

lemma upper_hex_digit: "upper_char (hex_digit n) \<in> set ''0123456789ABCDEF''"
  unfolding hex_digit_def by (rule upper_hex_digit_aux) simp

lemma set_upper_hex: "set (toUpperCase (hex bs)) \<subseteq> set ''0123456789ABCDEF''"
proof (induction bs)
  case Nil
  then show ?case by (simp add: hex_def toUpperCase_def)
next
  case (Cons b bs)
  have "upper_char (hex_digit (unat b div 16)) \<in> set ''0123456789ABCDEF''"
    and "upper_char (hex_digit (unat b)) \<in> set ''0123456789ABCDEF''"
    by (rule upper_hex_digit)+
  with Cons show ?case
    by (simp add: hex_def toUpperCase_def)
qed

lemma salt_value: "salt = ''SwPx0bjRFqVWm6LCQ8et9hhYt26L8GktOVB8d1R''"
  by (simp add: salt_def)

text \<open>
  The fixed vector: the padded message of \<^verbatim>\<open>"abc123" + salt\<close> is one block of sixteen
  words, and the 64 steps are evaluated sixteen at a time.
\<close>

lemma replicate_num: "replicate (numeral k) x = x # replicate (pred_numeral k) x"
  by (simp add: numeral_eq_Suc)

lemma fixed_block: "map le32 (groups 4 16 (md5_pad (utf8 (''abc123'' @ salt)))) = fixed_M"
  by (simp add: salt_def utf8_def md5_pad_def bytes_le_def groups_numeral upt_rec
      replicate_num fixed_M_def)

lemmas md5_eval = md5_F_def md5_g_def md5_K_def md5_S_def rotl32_def fixed_M_def upt_rec

lemma fixed_q1:
  "foldl (md5_step fixed_M) md5_init [0..<16] =
     (4218356850, 4048201149, 4034054105, 982888684)"
  by (simp add: md5_init_def md5_eval)

lemma fixed_q2:
  "foldl (md5_step fixed_M) (4218356850, 4048201149, 4034054105, 982888684) [16..<32] =
     (3771588306, 1874778207, 3370601498, 4153545100)"
  by (simp add: md5_eval)

lemma fixed_q3:
  "foldl (md5_step fixed_M) (3771588306, 1874778207, 3370601498, 4153545100) [32..<48] =
     (302054039, 992230552, 1457854387, 231576768)"
  by (simp add: md5_eval)

lemma fixed_q4:
  "foldl (md5_step fixed_M) (302054039, 992230552, 1457854387, 231576768) [48..<64] =
     (2816927792, 1779135566, 4200644727, 3759709020)"
  by (simp add: md5_eval)

lemma upt_quarters: "[0..<64] = [0..<16] @ [16..<32] @ [32..<48] @ [48..<64]"
  by (simp add: upt_rec)

lemma fixed_rounds:
  "md5_rounds fixed_M md5_init = (2816927792, 1779135566, 4200644727, 3759709020)"
  unfolding md5_rounds_def upt_quarters foldl_append fixed_q1 fixed_q2 fixed_q3 fixed_q4 ..

lemma fixed_md5:
  "md5 (utf8 (''abc123'' @ salt)) =
     [49, 11, 44, 15, 215, 31, 217, 89, 117, 157, 27, 147, 210, 239, 74, 240]"
proof -
  have len: "length (md5_pad (utf8 (''abc123'' @ salt))) div 64 = 1"
    by (simp add: md5_pad_def utf8_def salt_def bytes_le_def)
  have one: "groups 64 1 xs = [take 64 xs]" for xs :: "byte list"
    by (simp add: numeral_eq_Suc)
  have tk: "take 64 (md5_pad (utf8 (''abc123'' @ salt))) = md5_pad (utf8 (''abc123'' @ salt))"
    by (simp add: md5_pad_def utf8_def salt_def bytes_le_def)
  show ?thesis
    unfolding md5_def Let_def len one tk foldl.simps md5_block_def fixed_block fixed_rounds
    by (simp add: md5_init_def bytes_le_def upt_rec)
qed

lemma fixed_vector: "computeAuth (JStr ''abc123'') = Inr ''310B2C0FD71FD959759D1B93D2EF4AF0''"
  unfolding computeAuth_def toString.simps sum.case fixed_md5
  by (simp add: hex_def hex_digit_def toUpperCase_def upper_char_def)

lemma computeAuth_string:
  "computeAuth (JStr c) = Inr (toUpperCase (hex (md5 (utf8 (c @ salt)))))"
  by (simp add: computeAuth_def)

lemma rfc_words0: "map le32 (groups 4 16 rfc_B0) = rfc_M0"
  by (simp add: rfc_B0_def rfc_M0_def groups_numeral)

lemma rfc_b0_q0:
  "foldl (md5_step rfc_M0) (1732584193, 4023233417, 2562383102, 271733878) [0..<16] =
     (1364714654, 2941282819, 669615008, 4289499262)"
  by (simp add: md5_F_def md5_g_def md5_K_def md5_S_def rotl32_def rfc_M0_def upt_rec)

lemma rfc_b0_q1:
  "foldl (md5_step rfc_M0) (1364714654, 2941282819, 669615008, 4289499262) [16..<32] =
     (4173134768, 468866658, 2577461688, 3613453625)"
  by (simp add: md5_F_def md5_g_def md5_K_def md5_S_def rotl32_def rfc_M0_def upt_rec)

lemma rfc_b0_q2:
  "foldl (md5_step rfc_M0) (4173134768, 468866658, 2577461688, 3613453625) [32..<48] =
     (1768960748, 3678509018, 4022518129, 4200168444)"
  by (simp add: md5_F_def md5_g_def md5_K_def md5_S_def rotl32_def rfc_M0_def upt_rec)

lemma rfc_b0_q3:
  "foldl (md5_step rfc_M0) (1768960748, 3678509018, 4022518129, 4200168444) [48..<64] =
     (1632135403, 3033739522, 1362301595, 2694789287)"
  by (simp add: md5_F_def md5_g_def md5_K_def md5_S_def rotl32_def rfc_M0_def upt_rec)

lemma rfc_b0_rounds:
  "md5_rounds rfc_M0 (1732584193, 4023233417, 2562383102, 271733878) =
     (1632135403, 3033739522, 1362301595, 2694789287)"
  unfolding md5_rounds_def upt_quarters foldl_append rfc_b0_q0 rfc_b0_q1 rfc_b0_q2 rfc_b0_q3 ..

lemma rfc_b0_add:
  "md5_add (1732584193, 4023233417, 2562383102, 271733878) (1632135403, 3033739522, 1362301595, 2694789287) =
     (3364719596, 2762005643, 3924684697, 2966523165)"
  by simp

lemma rfc_words1: "map le32 (groups 4 16 rfc_B1) = rfc_M1"
  by (simp add: rfc_B1_def rfc_M1_def groups_numeral)

lemma rfc_b1_q0:
  "foldl (md5_step rfc_M1) (3364719596, 2762005643, 3924684697, 2966523165) [0..<16] =
     (3679450908, 1488006827, 70871609, 2607499616)"
  by (simp add: md5_F_def md5_g_def md5_K_def md5_S_def rotl32_def rfc_M1_def upt_rec)

lemma rfc_b1_q1:
  "foldl (md5_step rfc_M1) (3679450908, 1488006827, 70871609, 2607499616) [16..<32] =
     (2271343502, 1728654387, 102484071, 2052153622)"
  by (simp add: md5_F_def md5_g_def md5_K_def md5_S_def rotl32_def rfc_M1_def upt_rec)

lemma rfc_b1_q2:
  "foldl (md5_step rfc_M1) (2271343502, 1728654387, 102484071, 2052153622) [32..<48] =
     (1897020154, 502726922, 3869811590, 3701247451)"
  by (simp add: md5_F_def md5_g_def md5_K_def md5_S_def rotl32_def rfc_M1_def upt_rec)

lemma rfc_b1_q3:
  "foldl (md5_step rfc_M1) (1897020154, 502726922, 3869811590, 3701247451) [48..<64] =
     (3664208235, 2972255904, 1156340243, 3387193860)"
  by (simp add: md5_F_def md5_g_def md5_K_def md5_S_def rotl32_def rfc_M1_def upt_rec)

lemma rfc_b1_rounds:
  "md5_rounds rfc_M1 (3364719596, 2762005643, 3924684697, 2966523165) =
     (3664208235, 2972255904, 1156340243, 3387193860)"
  unfolding md5_rounds_def upt_quarters foldl_append rfc_b1_q0 rfc_b1_q1 rfc_b1_q2 rfc_b1_q3 ..

lemma rfc_b1_add:
  "md5_add (3364719596, 2762005643, 3924684697, 2966523165) (3664208235, 2972255904, 1156340243, 3387193860) =
     (2733960535, 1439294251, 786057644, 2058749729)"
  by simp

lemma rfc_out:
  "md5_out (2733960535, 1439294251, 786057644, 2058749729) =
     [87, 237, 244, 162, 43, 227, 201, 85, 172, 73, 218, 46, 33, 7, 182, 122]"
  by (simp add: bytes_le_def upt_rec)

lemma rfc_groups:
  "groups 64 (length (md5_pad (utf8 rfc_msg)) div 64) (md5_pad (utf8 rfc_msg)) = [rfc_B0, rfc_B1]"
  by (simp add: rfc_msg_def utf8_def md5_pad_def bytes_le_def groups_numeral upt_rec
      replicate_num rfc_B0_def rfc_B1_def)

text \<open>
  The last vector of the test suite of RFC 1321, a message of two blocks:
  \<^verbatim>\<open>MD5("1234567890" eight times) = 57edf4a22be3c955ac49da2e2107b67a\<close>.
\<close>

lemma md5_rfc1321_vector: "hex (md5 (utf8 rfc_msg)) = ''57edf4a22be3c955ac49da2e2107b67a''"
proof -
  have "md5 (utf8 rfc_msg) =
      [87, 237, 244, 162, 43, 227, 201, 85, 172, 73, 218, 46, 33, 7, 182, 122]"
    unfolding md5_def Let_def rfc_groups foldl.simps md5_block_def rfc_words0 rfc_words1
      md5_init_def rfc_b0_rounds rfc_b0_add rfc_b1_rounds rfc_b1_add rfc_out ..
  then show ?thesis
    by (simp add: hex_def hex_digit_def)
qed

text \<open>
  Claim C3. For every string \<open>c\<close>, \<^verbatim>\<open>_computeAuth(c)\<close> throws nothing and returns the
  upper-cased hexadecimal MD5 digest of the UTF-8 bytes of \<open>c\<close> followed by the shared
  secret (a function of \<open>c\<close> alone): always 32 characters, each one of
  \<^verbatim>\<open>0123456789ABCDEF\<close>; and for the
  challenge \<^verbatim>\<open>abc123\<close> it is \<^verbatim>\<open>310B2C0FD71FD959759D1B93D2EF4AF0\<close>, the MD5 digest of
  \<^verbatim>\<open>abc123SwPx0bjRFqVWm6LCQ8et9hhYt26L8GktOVB8d1R\<close>.
\<close>

theorem computeAuth_is_upper_hex_md5:
  "computeAuth (JStr c) =
     Inr (toUpperCase (hex (md5 (utf8 (c @ ''SwPx0bjRFqVWm6LCQ8et9hhYt26L8GktOVB8d1R'')))))
   \<and> length (toUpperCase (hex (md5 (utf8 (c @ ''SwPx0bjRFqVWm6LCQ8et9hhYt26L8GktOVB8d1R''))))) = 32
   \<and> set (toUpperCase (hex (md5 (utf8 (c @ ''SwPx0bjRFqVWm6LCQ8et9hhYt26L8GktOVB8d1R'')))))
         \<subseteq> set ''0123456789ABCDEF''
   \<and> computeAuth (JStr ''abc123'') = Inr ''310B2C0FD71FD959759D1B93D2EF4AF0''"
proof (intro conjI)
  show "computeAuth (JStr c) =
      Inr (toUpperCase (hex (md5 (utf8 (c @ ''SwPx0bjRFqVWm6LCQ8et9hhYt26L8GktOVB8d1R'')))))"
    unfolding computeAuth_string salt_value ..
  show "length (toUpperCase (hex (md5 (utf8 (c @ ''SwPx0bjRFqVWm6LCQ8et9hhYt26L8GktOVB8d1R'')))))
      = 32"
    by (simp add: toUpperCase_def length_hex length_md5)
  show "set (toUpperCase (hex (md5 (utf8 (c @ ''SwPx0bjRFqVWm6LCQ8et9hhYt26L8GktOVB8d1R'')))))
      \<subseteq> set ''0123456789ABCDEF''"
    by (rule set_upper_hex)
  show "computeAuth (JStr ''abc123'') = Inr ''310B2C0FD71FD959759D1B93D2EF4AF0''"
    by (rule fixed_vector)
qed


section \<open>Properties of the built-in string functions\<close>







lemma match_len_first:
  assumes "c \<notin> set (map hd pats)"
  shows "match_len pats (c # s) = 0"
  using assms
proof (induction pats)
  case Nil
  then show ?case by simp
next
  case (Cons w pats)
  have "w \<noteq> [] \<Longrightarrow> take (length w) (c # s) = w \<Longrightarrow> hd w = c"
    by (cases w) auto
  with Cons show ?case by auto
qed

lemma hd_js_whitespace:
  "set (map hd js_whitespace) =
     {CHR 0x09, CHR 0x0A, CHR 0x0B, CHR 0x0C, CHR 0x0D, CHR 0x20, CHR 0xC2, CHR 0xE1, CHR 0xE2,
      CHR 0xE3, CHR 0xEF}"
  by (simp add: js_whitespace_def)

lemma trimStart_first:
  assumes "c \<in> set ''0123456789-''"
  shows "trimStart (c # s) = c # s"
proof -
  from assms have "c = CHR ''0'' \<or> c = CHR ''1'' \<or> c = CHR ''2'' \<or> c = CHR ''3'' \<or> c = CHR ''4''
      \<or> c = CHR ''5'' \<or> c = CHR ''6'' \<or> c = CHR ''7'' \<or> c = CHR ''8'' \<or> c = CHR ''9''
      \<or> c = CHR ''-''"
    by simp
  then have "c \<notin> set (map hd js_whitespace)"
    unfolding hd_js_whitespace by (elim disjE) simp_all
  then have "match_len js_whitespace (c # s) = 0"
    by (rule match_len_first)
  then show ?thesis
    by (simp add: trimStart_def strip.simps [of js_whitespace "c # s"])
qed

lemma is_digit_10: "c \<in> set ''0123456789'' \<Longrightarrow> is_digit 10 c"
proof -
  assume "c \<in> set ''0123456789''"
  then have "c = CHR ''0'' \<or> c = CHR ''1'' \<or> c = CHR ''2'' \<or> c = CHR ''3'' \<or> c = CHR ''4''
      \<or> c = CHR ''5'' \<or> c = CHR ''6'' \<or> c = CHR ''7'' \<or> c = CHR ''8'' \<or> c = CHR ''9''"
    by simp
  then show ?thesis
    by (elim disjE) (simp_all add: is_digit_def digit_val_def)
qed




lemma parseInt_digits_round:
  assumes "s \<noteq> []" and "set s \<subseteq> set ''0123456789''"
  shows "parseInt s =
           (case round_double (digits_value 10 s) of
              None \<Rightarrow> JInf False
            | Some v \<Rightarrow> JNum (int v))"
    and "parseInt (CHR ''-'' # s) =
           (case round_double (digits_value 10 s) of
              None \<Rightarrow> JInf True
            | Some v \<Rightarrow> JNum (- int v))"
proof -
  from assms obtain c s' where s: "s = c # s'" and c: "c \<in> set ''0123456789''"
    by (cases s) auto
  have "\<forall>x \<in> set s. is_digit 10 x"
    using assms(2) is_digit_10 by blast
  then have tw: "takeWhile (is_digit 10) s = s"
    by (simp add: takeWhile_eq_all_conv)
  have nox: "CHR ''x'' \<notin> set ''0123456789''" "CHR ''X'' \<notin> set ''0123456789''"
    "CHR ''-'' \<notin> set ''0123456789''" "CHR ''+'' \<notin> set ''0123456789''"
    by simp_all
  have nohex: "take 2 s \<noteq> ''0x'' \<and> take 2 s \<noteq> ''0X''"
  proof (cases s')
    case Nil
    then show ?thesis by (simp add: s)
  next
    case (Cons d t)
    with assms(2) have "d \<in> set ''0123456789''"
      unfolding s by simp
    with nox have "d \<noteq> CHR ''x'' \<and> d \<noteq> CHR ''X''"
      by blast
    then show ?thesis
      by (simp add: s Cons)
  qed
  have "c \<noteq> CHR ''-'' \<and> c \<noteq> CHR ''+''"
    using c nox by blast
  then have nosign: "take 1 s \<noteq> ''-'' \<and> take 1 s \<noteq> ''+''"
    by (simp add: s)
  have t1: "trimStart s = s"
    unfolding s using c by (intro trimStart_first) auto
  have t2: "trimStart (CHR ''-'' # s) = CHR ''-'' # s"
    by (intro trimStart_first) simp
  have "parseInt s =
      (if takeWhile (is_digit 10) s = [] then JNaN
       else (case round_double (digits_value 10 (takeWhile (is_digit 10) s)) of
               None \<Rightarrow> JInf False
             | Some v \<Rightarrow> JNum (int v)))"
    unfolding parseInt_def Let_def t1 using nosign nohex by (auto split: option.splits)
  then show "parseInt s =
      (case round_double (digits_value 10 s) of None \<Rightarrow> JInf False | Some v \<Rightarrow> JNum (int v))"
    unfolding tw using assms(1) by simp
  have "parseInt (CHR ''-'' # s) =
      (if takeWhile (is_digit 10) s = [] then JNaN
       else (case round_double (digits_value 10 (takeWhile (is_digit 10) s)) of
               None \<Rightarrow> JInf True
             | Some v \<Rightarrow> JNum (- int v)))"
    unfolding parseInt_def Let_def t2 using nohex by (auto split: option.splits)
  then show "parseInt (CHR ''-'' # s) =
      (case round_double (digits_value 10 s) of None \<Rightarrow> JInf True | Some v \<Rightarrow> JNum (- int v))"
    unfolding tw using assms(1) by simp
qed



lemma escape_char_hex: "c \<in> set ''0123456789ABCDEF'' \<Longrightarrow> escape_char c = [c]"
proof -
  assume "c \<in> set ''0123456789ABCDEF''"
  then have "c = CHR ''0'' \<or> c = CHR ''1'' \<or> c = CHR ''2'' \<or> c = CHR ''3'' \<or> c = CHR ''4''
      \<or> c = CHR ''5'' \<or> c = CHR ''6'' \<or> c = CHR ''7'' \<or> c = CHR ''8'' \<or> c = CHR ''9''
      \<or> c = CHR ''A'' \<or> c = CHR ''B'' \<or> c = CHR ''C'' \<or> c = CHR ''D'' \<or> c = CHR ''E''
      \<or> c = CHR ''F''"
    by simp
  then show ?thesis
    by (elim disjE) (simp_all add: escape_char_def)
qed

lemma concat_escape_plain:
  "\<forall>c \<in> set s. escape_char c = [c] \<Longrightarrow> concat (map escape_char s) = s"
  by (induction s) simp_all

lemma computeAuth_digits:
  assumes "computeAuth chal = Inr code"
  shows "set code \<subseteq> set ''0123456789ABCDEF''"
proof -
  from assms obtain c where "code = toUpperCase (hex (md5 (utf8 (c @ salt))))"
    by (auto simp add: computeAuth_def split: sum.splits)
  then show ?thesis
    by (simp only: set_upper_hex)
qed

lemma quote_computeAuth:
  assumes "computeAuth chal = Inr code"
  shows "quote code = CHR 0x22 # code @ [CHR 0x22]"
proof -
  have "\<forall>c \<in> set code. escape_char c = [c]"
    using computeAuth_digits [OF assms] escape_char_hex by blast
  then show ?thesis
    by (simp add: quote_def concat_escape_plain)
qed

lemma stringify_auth_response:
  assumes "computeAuth chal = Inr code"
  shows \<open>stringify (auth_response code) =
     Some (''{"type":"authentication","subtype":"response","arguments":{"response":"''
             @ code @ ''","device":"Companion"}}'')\<close>
proof -
  have q: "quote ''type'' = [CHR 0x22] @ ''type'' @ [CHR 0x22]"
    "quote ''subtype'' = [CHR 0x22] @ ''subtype'' @ [CHR 0x22]"
    "quote ''arguments'' = [CHR 0x22] @ ''arguments'' @ [CHR 0x22]"
    "quote ''response'' = [CHR 0x22] @ ''response'' @ [CHR 0x22]"
    "quote ''device'' = [CHR 0x22] @ ''device'' @ [CHR 0x22]"
    "quote ''authentication'' = [CHR 0x22] @ ''authentication'' @ [CHR 0x22]"
    "quote ''Companion'' = [CHR 0x22] @ ''Companion'' @ [CHR 0x22]"
    by (simp_all add: quote_def escape_char_def)
  show ?thesis
    by (simp add: auth_response_def q quote_computeAuth [OF assms])
qed





lemma stringify_applyCmd_some: "\<exists>t. stringify (applyCmd u) = Some t"
  by (simp add: applyCmd_def)



lemma trimStart_nonspace:
  assumes "c \<notin> set (map hd js_whitespace)"
  shows "trimStart (c # s) = c # s"
proof -
  from assms have "match_len js_whitespace (c # s) = 0"
    by (rule match_len_first)
  then show ?thesis
    by (simp add: trimStart_def strip.simps [of js_whitespace "c # s"])
qed

text \<open>
  Beyond \<open>2 ^ 53\<close> a slot number does not survive: \<^verbatim>\<open>parseInt\<close> rounds the digits to a
  double, and from \<open>10 ^ 21\<close> on a number prints with an exponent, of which \<^verbatim>\<open>parseInt\<close>
  reads the first digit only.
\<close>

lemma bitlen_numeral:
  "bitlen (numeral k) = Suc (bitlen (numeral k div 2))"
  "bitlen (Suc 0) = Suc 0" "bitlen 0 = 0"
  by (simp_all add: bitlen.simps [of "numeral k"] bitlen.simps [of "Suc 0"] bitlen.simps [of 0])

lemma round_double_samples:
  "round_double 9007199254740993 = Some 9007199254740992"
  "round_double 1000000000000000000000 = Some 1000000000000000000000"
  "round_double 2000000000000000000000 = Some 2000000000000000000000"
  by (simp_all add: round_double_def Let_def bitlen_numeral)

lemma parseInt_rounds: "parseInt ''9007199254740993'' = JNum 9007199254740992"
proof -
  have "digits_value 10 ''9007199254740993'' = 9007199254740993"
    by (simp add: digits_value_def digit_val_def)
  with parseInt_digits_round(1) [of "''9007199254740993''"] show ?thesis
    by (simp add: round_double_samples)
qed

lemma toString_exponent: "toString (JNum 1000000000000000000000) = Inr ''1e+21''"
proof -
  have l: "length (show_nat 1000000000000000000000) - 1 = Suc 20"
    by (simp add: show_nat.simps digit_char_def)
  have s: "shortest 1000000000000000000000 = 1000000000000000000000"
    unfolding shortest_def l shortest_from.simps Let_def by (simp add: round_double_samples)
  show ?thesis
    by (simp add: number_text_def nat_text_def s exp_text_def Let_def show_nat.simps
        digit_char_def)
qed

lemma parseInt_exponent: "parseInt ''1e+21'' = JNum 1"
proof -
  have "trimStart ''1e+21'' = ''1e+21''"
    by (rule trimStart_nonspace) (unfold hd_js_whitespace, simp)
  then show ?thesis
    by (simp add: parseInt_def is_digit_def digit_val_def digits_value_def round_double_def)
qed


lemma strip_first:
  assumes "c \<notin> set (map hd pats)"
  shows "strip pats (c # s) = c # s"
proof -
  from assms have "match_len pats (c # s) = 0"
    by (rule match_len_first)
  then show ?thesis
    by (simp add: strip.simps [of pats "c # s"])
qed

lemma trim_samples: "trim ''10.0.0.5'' = ''10.0.0.5''" "trim ''9000'' = ''9000''"
  by (simp_all add: trim_def trimStart_def trimEnd_def strip_first js_whitespace_def)


section \<open>Properties of the protocol handler\<close>

lemma ws_send_open:
  assumes "ws st = Some h" and "readyState e h = OPEN"
  shows "ws_send e st v = Inr [WsSend h (case stringify v of None \<Rightarrow> [] | Some t \<Rightarrow> t)]"
  using assms by (simp add: ws_send_def)

lemma ws_send_connecting:
  assumes "ws st = Some h" and "readyState e h = CONNECTING"
  shows "ws_send e st v = Inl (Error ''WebSocket is not open: readyState 0 (CONNECTING)'')"
  using assms by (simp add: ws_send_def)

text \<open>
  Claim C7. An inbound frame that \<^verbatim>\<open>JSON.parse\<close> rejects is dropped: the handler makes
  no call at all (nothing logged, nothing sent, no status), throws nothing and returns the
  instance as it was; the turn of the event loop that delivers it leaves the whole world,
  sockets, timers and requests included, as it was.
\<close>

theorem unparseable_message_discarded:
  assumes "json_parse e raw = None"
  shows "onWsMessage e raw st = ([], st, None)
       \<and> (map_of (socks w) h \<noteq> None \<longrightarrow> step e w (SockMessage h raw) = Some w)"
  using assms by (auto simp: onWsMessage_def absorb_def outside_def)

theorem unparseable_message_discarded_witness:
  "json_parse sample_env ''not json'' = None
   \<and> onWsMessage sample_env ''not json'' connected = ([], connected, None)
   \<and> map_of (socks connected_world) 0 \<noteq> None
   \<and> step sample_env connected_world (SockMessage 0 ''not json'') = Some connected_world"
proof -
  have p: "json_parse sample_env ''not json'' = None"
    by (simp add: sample_env_def challenge_frame_def result_frame_def)
  have s: "map_of (socks connected_world) 0 \<noteq> None"
    by (simp add: connected_world_def new_world_def)
  from unparseable_message_discarded [OF p, of connected connected_world 0] p s
  show ?thesis by blast
qed

text \<open>
  Claim C4. A frame tagged \<^verbatim>\<open>authentication\<close>/\<^verbatim>\<open>challenge\<close> whose challenge is a string
  \<open>c\<close>, received while the instance's socket is open, is answered by exactly one \<^verbatim>\<open>send\<close>
  on that socket: the response frame whose \<^verbatim>\<open>response\<close> is \<^verbatim>\<open>_computeAuth(c)\<close>, the
  upper-cased hexadecimal MD5 digest of \<open>c\<close> followed by the shared secret, and whose
  \<^verbatim>\<open>device\<close> is \<^verbatim>\<open>Companion\<close>; the code is stored in \<^verbatim>\<open>lastAuthCode\<close>, two lines are
  logged, nothing is thrown and nothing else changes.
\<close>

theorem challenge_answered_once:
  assumes "json_parse e raw = Some msg"
    and "get_prop msg ''type'' = Inr (JStr ''authentication'')"
    and "get_prop msg ''subtype'' = Inr (JStr ''challenge'')"
    and "get_prop msg ''arguments'' = Inr args"
    and "get_prop args ''challenge'' = Inr (JStr c)"
    and "ws st = Some h"
    and "readyState e h = OPEN"
  shows \<open>computeAuth (JStr c) = Inr (toUpperCase (hex (md5 (utf8 (c @ salt)))))
     \<and> onWsMessage e raw st =
     ([Log ''info'' (padlock @ '' Challenge: '' @ c),
       Log ''info'' (tools @ '' Auth code: '' @ toUpperCase (hex (md5 (utf8 (c @ salt))))),
       WsSend h (''{"type":"authentication","subtype":"response","arguments":{"response":"''
                   @ toUpperCase (hex (md5 (utf8 (c @ salt))))
                   @ ''","device":"Companion"}}'')],
      st\<lparr>lastAuthCode := Some (toUpperCase (hex (md5 (utf8 (c @ salt)))))\<rparr>, None)\<close>
proof -
  have c: "computeAuth (JStr c) = Inr (toUpperCase (hex (md5 (utf8 (c @ salt)))))"
    by (rule computeAuth_string)
  show ?thesis
    using assms
    by (simp add: onWsMessage_def on_challenge_def ws_send_def Let_def c
        stringify_auth_response [OF c])
qed

theorem challenge_answered_once_witness:
  \<open>json_parse sample_env challenge_frame = Some challenge_msg
   \<and> ws connected = Some 0
   \<and> readyState sample_env 0 = OPEN
   \<and> onWsMessage sample_env challenge_frame connected =
       ([Log ''info'' (padlock @ '' Challenge: abc123''),
         Log ''info'' (tools @ '' Auth code: 310B2C0FD71FD959759D1B93D2EF4AF0''),
         WsSend 0 ''{"type":"authentication","subtype":"response","arguments":{"response":"310B2C0FD71FD959759D1B93D2EF4AF0","device":"Companion"}}''],
        connected\<lparr>lastAuthCode := Some ''310B2C0FD71FD959759D1B93D2EF4AF0''\<rparr>, None)\<close>
proof -
  have p: "json_parse sample_env challenge_frame = Some challenge_msg"
    by (simp add: sample_env_def)
  have w: "ws connected = Some 0"
    by (simp add: connected_def)
  have r: "readyState sample_env 0 = OPEN"
    by (simp add: sample_env_def)
  have d: "toUpperCase (hex (md5 (utf8 (''abc123'' @ salt)))) = ''310B2C0FD71FD959759D1B93D2EF4AF0''"
    using fixed_vector unfolding computeAuth_string by simp
  have "get_prop challenge_msg ''type'' = Inr (JStr ''authentication'')"
    and "get_prop challenge_msg ''subtype'' = Inr (JStr ''challenge'')"
    and "get_prop challenge_msg ''arguments'' = Inr (JObj [(''challenge'', JStr ''abc123'')])"
    and "get_prop (JObj [(''challenge'', JStr ''abc123'')]) ''challenge'' = Inr (JStr ''abc123'')"
    by (simp_all add: challenge_msg_def)
  from challenge_answered_once [OF p this w r, THEN conjunct2] p w r
  show ?thesis unfolding d by simp
qed

text \<open>
  Outside these conditions the challenge is not answered. A challenge that cannot be made a
  string (an object with a \<^verbatim>\<open>toString\<close> property) makes line 89 throw before anything is
  logged, stored or sent; on a socket that is still connecting the code is computed, stored
  and logged, and \<^verbatim>\<open>send\<close> throws.
\<close>

lemma challenge_not_printable:
  assumes "json_parse e raw = Some msg"
    and "get_prop msg ''type'' = Inr (JStr ''authentication'')"
    and "get_prop msg ''subtype'' = Inr (JStr ''challenge'')"
    and "get_prop msg ''arguments'' = Inr args"
    and "get_prop args ''challenge'' = Inr chal"
    and "toString chal = Inl x"
  shows "onWsMessage e raw st = ([], st, Some x)"
  using assms by (simp add: onWsMessage_def on_challenge_def)

lemma challenge_while_connecting:
  assumes "json_parse e raw = Some msg"
    and "get_prop msg ''type'' = Inr (JStr ''authentication'')"
    and "get_prop msg ''subtype'' = Inr (JStr ''challenge'')"
    and "get_prop msg ''arguments'' = Inr args"
    and "get_prop args ''challenge'' = Inr (JStr c)"
    and "ws st = Some h"
    and "readyState e h = CONNECTING"
  shows "sent (fst (onWsMessage e raw st)) = []
       \<and> snd (snd (onWsMessage e raw st)) =
           Some (Error ''WebSocket is not open: readyState 0 (CONNECTING)'')"
  using assms
  by (simp add: onWsMessage_def on_challenge_def ws_send_def Let_def computeAuth_string
      sent_def)

section \<open>Properties of the command dispatcher\<close>





text \<open>
  On a socket that is still connecting the first \<^verbatim>\<open>send\<close> throws: one line is logged,
  no frame is sent and no timer is armed. An option that cannot be made a string makes the
  callback throw as well: the slot at line 160, before anything is done, the look at line
  180, after the first frame.
\<close>

lemma applyGrade_while_connecting:
  assumes "ws st = Some h"
    and "readyState e h = CONNECTING"
    and "slot opts = JStr s"
  shows "applyGrade e opts st =
           ([Log ''info'' (arrow @ '' Changing to slot '' @ projr (toString (parseInt s)))], st,
            Some (Error ''WebSocket is not open: readyState 0 (CONNECTING)''))"
proof -
  obtain t where t: "toString (parseInt s) = Inr t"
    by (cases "parseInt s") (simp_all add: parseInt_def Let_def split: option.splits if_splits)
  show ?thesis
    unfolding applyGrade_def Let_def assms(3) toString.simps sum.case t
      ws_send_connecting [OF assms(1) assms(2)]
    by simp
qed

lemma applyGrade_slot_not_printable:
  "toString (slot opts) = Inl x \<Longrightarrow> applyGrade e opts st = ([], st, Some x)"
  by (simp add: applyGrade_def)

lemma applyGrade_look_not_printable:
  assumes "ws st = Some h"
    and "readyState e h = OPEN"
    and "slot opts = JStr s"
    and "toString (look opts) = Inl x"
  shows "length (sent (fst (applyGrade e opts st))) = 1
       \<and> snd (snd (applyGrade e opts st)) = Some x"
proof -
  obtain t where t: "toString (parseInt s) = Inr t"
    by (cases "parseInt s") (simp_all add: parseInt_def Let_def split: option.splits if_splits)
  show ?thesis
    unfolding applyGrade_def Let_def assms(3) toString.simps sum.case t
      ws_send_open [OF assms(1) assms(2)] assms(4)
    by (simp add: sent_def)
qed


section \<open>Properties of the connection manager\<close>

lemma match_len_Nil: "match_len pats [] = 0"
  by (induction pats) auto

lemma strip_Nil: "strip pats [] = []"
  by (simp add: strip.simps [of pats "[]"] match_len_Nil)

lemma match_len_whitespace:
  assumes "w \<in> set js_whitespace"
  shows "match_len js_whitespace (w @ s) = length w \<and> w \<noteq> []"
proof -
  from assms have
    "w = [CHR 0x09] \<or> w = [CHR 0x0A] \<or> w = [CHR 0x0B] \<or> w = [CHR 0x0C] \<or> w = [CHR 0x0D]
     \<or> w = [CHR 0x20] \<or> w = [CHR 0xC2, CHR 0xA0] \<or> w = [CHR 0xE1, CHR 0x9A, CHR 0x80]
     \<or> w = [CHR 0xE2, CHR 0x80, CHR 0x80] \<or> w = [CHR 0xE2, CHR 0x80, CHR 0x81]
     \<or> w = [CHR 0xE2, CHR 0x80, CHR 0x82] \<or> w = [CHR 0xE2, CHR 0x80, CHR 0x83]
     \<or> w = [CHR 0xE2, CHR 0x80, CHR 0x84] \<or> w = [CHR 0xE2, CHR 0x80, CHR 0x85]
     \<or> w = [CHR 0xE2, CHR 0x80, CHR 0x86] \<or> w = [CHR 0xE2, CHR 0x80, CHR 0x87]
     \<or> w = [CHR 0xE2, CHR 0x80, CHR 0x88] \<or> w = [CHR 0xE2, CHR 0x80, CHR 0x89]
     \<or> w = [CHR 0xE2, CHR 0x80, CHR 0x8A] \<or> w = [CHR 0xE2, CHR 0x80, CHR 0xA8]
     \<or> w = [CHR 0xE2, CHR 0x80, CHR 0xA9] \<or> w = [CHR 0xE2, CHR 0x80, CHR 0xAF]
     \<or> w = [CHR 0xE2, CHR 0x81, CHR 0x9F] \<or> w = [CHR 0xE3, CHR 0x80, CHR 0x80]
     \<or> w = [CHR 0xEF, CHR 0xBB, CHR 0xBF]"
    by (simp add: js_whitespace_def)
  then show ?thesis
    by (elim disjE) (simp_all add: js_whitespace_def)
qed

lemma trimStart_whitespace:
  "set spaces \<subseteq> set js_whitespace \<Longrightarrow> trimStart (concat spaces) = []"
proof (induction spaces)
  case Nil
  then show ?case by (simp add: trimStart_def strip_Nil)
next
  case (Cons w spaces)
  then have w: "w \<in> set js_whitespace" and rest: "trimStart (concat spaces) = []"
    by simp_all
  from match_len_whitespace [OF w, of "concat spaces"]
  have m: "match_len js_whitespace (w @ concat spaces) = length w" and "w \<noteq> []"
    by simp_all
  then have "strip js_whitespace (w @ concat spaces) = strip js_whitespace (concat spaces)"
    by (subst strip.simps) simp
  with rest show ?case
    by (simp add: trimStart_def)
qed

lemma trim_whitespace:
  "set spaces \<subseteq> set js_whitespace \<Longrightarrow> trim (concat spaces) = []"
  by (simp add: trim_def trimStart_whitespace trimEnd_def strip_Nil)

lemma trim_Nil: "trim [] = []"
  using trim_whitespace [of "[]"] by simp

lemma blank_host_trim:
  assumes "v = JUndef \<or> v = JStr (concat spaces) \<and> set spaces \<subseteq> set js_whitespace"
  shows "call_trim (js_or v (JStr [])) = Inr []"
proof (cases "v = JUndef")
  case True
  then show ?thesis by (simp add: js_or_def trim_Nil)
next
  case False
  with assms have v: "v = JStr (concat spaces)" and sp: "set spaces \<subseteq> set js_whitespace"
    by simp_all
  from sp have "trim (concat spaces) = []"
    by (rule trim_whitespace)
  then show ?thesis
    unfolding v js_or_def by (simp add: trim_Nil)
qed

lemma connect_blank:
  assumes "call_trim (js_or (host (config st)) (JStr [])) = Inr []"
  shows "connectWebSocket e st =
           ([UpdateStatus BadConfig (Some ''Enter server IP'')], st, None)"
  using assms by (simp add: connectWebSocket_def)

lemma opened_append: "opened (a @ b) = opened a @ opened b"
  by (simp add: opened_def)

lemma inst_apply_effect: "inst (apply_effect w x) = inst w"
  by (cases x) simp_all

lemma trace_apply_effect: "trace (apply_effect w x) = trace w"
  by (cases x) simp_all

lemma inst_foldl: "inst (foldl apply_effect w fx) = inst w"
  by (induction fx arbitrary: w) (simp_all add: inst_apply_effect)

lemma inst_absorb: "inst (absorb w (fx, st, x)) = st"
  by (simp add: absorb_def inst_foldl)

lemma trace_absorb:
  "trace (absorb w (fx, st, x)) =
     trace w @ fx @ (case x of None \<Rightarrow> [] | Some e \<Rightarrow> [Unhandled e])"
  by (simp add: absorb_def)

lemma opened_absorb:
  "opened (trace (absorb w (fx, st, x))) = opened (trace w) @ opened fx"
  by (cases x) (simp_all add: trace_absorb opened_append, simp_all add: opened_def)

lemma absorb_quiet:
  assumes "quiet st out" and "trace w0 = trace w"
  shows "config (inst (absorb w0 out)) = config st
       \<and> opened (trace (absorb w0 out)) = opened (trace w)"
proof -
  obtain fx st' x where out: "out = (fx, st', x)"
    by (cases out)
  from assms show ?thesis
    unfolding out by (simp add: quiet_def inst_absorb opened_absorb)
qed

lemma scheduleReconnect_quiet:
  "opened (fst (scheduleReconnect st)) = [] \<and> config (snd (scheduleReconnect st)) = config st"
  by (auto simp: scheduleReconnect_def opened_def split: option.splits)

lemma destroy_quiet: "quiet st (destroy st)"
  by (auto simp: quiet_def destroy_def close_ws_def opened_def split: option.splits)

lemma on_open_quiet: "quiet st (on_open url st)"
  by (simp add: quiet_def on_open_def opened_def)

lemma on_error_quiet: "quiet st (on_error m st)"
  using scheduleReconnect_quiet [of st]
  by (simp add: quiet_def on_error_def opened_def)

lemma on_close_quiet: "quiet st (on_close st)"
  using scheduleReconnect_quiet [of st]
  by (simp add: quiet_def on_close_def opened_def)

lemma ws_send_quiet: "ws_send e st v = Inr fx \<Longrightarrow> opened fx = []"
  by (auto simp: ws_send_def opened_def split: option.splits ready_state.splits)

lemma on_challenge_quiet: "quiet st (on_challenge e msg st)"
  by (auto simp: quiet_def on_challenge_def opened_def Let_def opened_append
      dest: ws_send_quiet split: sum.splits)

lemma on_result_quiet: "quiet st (on_result msg st)"
  by (simp add: quiet_def on_result_def fetchSlotsAndLooks_def opened_def
      split: sum.splits option.splits)

lemma onWsMessage_quiet: "quiet st (onWsMessage e raw st)"
  using on_challenge_quiet on_result_quiet
  by (simp add: onWsMessage_def split: sum.splits option.splits)
     (simp add: quiet_def opened_def)

lemma opened_Log: "opened (Log l m # fx) = opened fx"
  by (simp add: opened_def)

lemma opened_SetTimeout: "opened [SetTimeout t cb d] = []"
  by (simp add: opened_def)

lemma opened_Nil: "opened [] = []"
  by (simp add: opened_def)

lemma applyGrade_quiet: "quiet st (applyGrade e opts st)"
  by (auto simp: quiet_def applyGrade_def Let_def opened_append opened_Log opened_SetTimeout
      opened_Nil dest: ws_send_quiet split: sum.splits)

lemma run_timer_quiet:
  assumes "call_trim (js_or (host (config st)) (JStr [])) = Inr []"
  shows "quiet st (run_timer e cb st)"
  using connect_blank [OF assms]
  by (cases cb) (simp_all add: quiet_def opened_def split: sum.splits)

lemma resume_quiet:
  "opened (fst (resume k r st)) = [] \<and> config (snd (resume k r st)) = config st"
  by (cases k; cases r)
     (simp_all add: fetch_failed_def buildApplyAction_def opened_def
        split: sum.splits)

lemma step_blank:
  assumes b: "call_trim (js_or (host (config (inst w))) (JStr [])) = Inr []"
    and nr: "\<not> is_reconfig ev"
    and st: "step e w ev = Some w1"
  shows "config (inst w1) = config (inst w) \<and> opened (trace w1) = opened (trace w)"
proof (cases ev)
  case (Init cfg)
  with nr show ?thesis by simp
next
  case (ConfigUpdated cfg)
  with nr show ?thesis by simp
next
  case Destroy
  with st have "w1 = absorb w (destroy (inst w))" by simp
  then show ?thesis
    using absorb_quiet [OF destroy_quiet refl] by simp
next
  case (SockOpen h)
  with st obtain url where
    "w1 = absorb (w\<lparr>ready := (ready w)(h := OPEN)\<rparr>) (on_open url (inst w))"
    by (auto split: option.splits if_splits)
  then show ?thesis
    using absorb_quiet [OF on_open_quiet, of "w\<lparr>ready := (ready w)(h := OPEN)\<rparr>" w]
    by simp
next
  case (SockMessage h raw)
  with st have "w1 = absorb w (onWsMessage (outside e w) raw (inst w))"
    by (auto split: option.splits)
  then show ?thesis
    using absorb_quiet [OF onWsMessage_quiet refl] by simp
next
  case (SockError h m)
  with st have "w1 = absorb (w\<lparr>ready := (ready w)(h := CLOSING)\<rparr>) (on_error m (inst w))"
    by (auto split: option.splits)
  then show ?thesis
    using absorb_quiet [OF on_error_quiet, of "w\<lparr>ready := (ready w)(h := CLOSING)\<rparr>" w]
    by simp
next
  case (SockClose h)
  with st have "w1 = absorb (w\<lparr>socks := filter (\<lambda>p. fst p \<noteq> h) (socks w),
                             ready := (ready w)(h := CLOSED)\<rparr>) (on_close (inst w))"
    by (auto split: option.splits)
  then show ?thesis
    using absorb_quiet [OF on_close_quiet,
        of "w\<lparr>socks := filter (\<lambda>p. fst p \<noteq> h) (socks w), ready := (ready w)(h := CLOSED)\<rparr>" w]
    by simp
next
  case (TimerFires t)
  with st obtain cb where
    "w1 = absorb (w\<lparr>timers := filter (\<lambda>p. fst p \<noteq> t) (timers w)\<rparr>) (run_timer e cb (inst w))"
    by (auto split: option.splits)
  then show ?thesis
    using absorb_quiet [OF run_timer_quiet [OF b],
        of "w\<lparr>timers := filter (\<lambda>p. fst p \<noteq> t) (timers w)\<rparr>" w]
    by simp
next
  case (RequestEnds i r)
  obtain fx st' where res: "resume (requests w ! i) r (inst w) = (fx, st')"
    by (cases "resume (requests w ! i) r (inst w)")
  with resume_quiet [of "requests w ! i" r "inst w"]
  have q: "quiet (inst w) (fx, st', None)"
    by (simp add: quiet_def)
  from st RequestEnds res
  have "w1 = absorb (w\<lparr>requests := take i (requests w) @ drop (Suc i) (requests w)\<rparr>)
                (fx, st', None)"
    by (auto split: if_splits)
  then show ?thesis
    using absorb_quiet [OF q,
        of "w\<lparr>requests := take i (requests w) @ drop (Suc i) (requests w)\<rparr>" w]
    by simp
next
  case (Action opts)
  with st have "w1 = absorb w (applyGrade (outside e w) opts (inst w))"
    by (auto split: if_splits)
  then show ?thesis
    using absorb_quiet [OF applyGrade_quiet refl] by simp
qed

lemma run_blank:
  assumes "call_trim (js_or (host (config (inst w))) (JStr [])) = Inr []"
    and "\<not> list_ex is_reconfig evs"
    and "run_events e w evs = Some w1"
  shows "opened (trace w1) = opened (trace w)"
  using assms
proof (induction evs arbitrary: w)
  case Nil
  then show ?case by simp
next
  case (Cons ev evs)
  from Cons.prems(3) obtain w2 where s: "step e w ev = Some w2"
    and r: "run_events e w2 evs = Some w1"
    by (auto split: option.splits)
  from Cons.prems(2) have nr: "\<not> is_reconfig ev" and nrs: "\<not> list_ex is_reconfig evs"
    by simp_all
  from step_blank [OF Cons.prems(1) nr s]
  have c: "config (inst w2) = config (inst w)" and o: "opened (trace w2) = opened (trace w)"
    by simp_all
  from Cons.prems(1) c have "call_trim (js_or (host (config (inst w2))) (JStr [])) = Inr []"
    by simp
  from Cons.IH [OF this nrs r] o show ?case
    by simp
qed

lemma trim_blank: "trim ''  '' = []"
  using trim_whitespace [of "['' '', '' '']"] by (simp add: js_whitespace_def)

lemmas run_eval =
  trace_of_def timers_of_def socks_of_def new_world_def new_instance_def cfg0_def quiet_env_def
  absorb_def init_def destroy_def close_ws_def on_open_def on_close_def on_error_def
  scheduleReconnect_def connectWebSocket_def configUpdated_def js_or_def port_text_def
  trim_samples Let_def

text \<open>
  Claim C9, as the specification words it, ends with: the status \<^verbatim>\<open>BadConfig\<close> is
  terminal, no retry is scheduled until the module is reconfigured. The module does schedule
  one. It connects to \<^verbatim>\<open>10.0.0.5\<close>, the socket opens, and it is reconfigured with a host of
  two spaces: \<^verbatim>\<open>configUpdated\<close> closes the socket and reports \<^verbatim>\<open>BadConfig\<close>. The socket
  then emits \<^verbatim>\<open>close\<close>, and its handler (lines 68 to 71) arms the reconnect timer, while
  the configured host is still blank.
\<close>

theorem blank_host_retry_scheduled_counterexample:
  "host (config (inst_of (run_events quiet_env new_world
       [Init cfg0, SockOpen 0, ConfigUpdated blank_cfg, SockClose 0]))) = JStr ''  ''
   \<and> timers_of (run_events quiet_env new_world
       [Init cfg0, SockOpen 0, ConfigUpdated blank_cfg, SockClose 0]) = [(0, ReconnectCb)]
   \<and> trace_of (run_events quiet_env new_world
       [Init cfg0, SockOpen 0, ConfigUpdated blank_cfg, SockClose 0]) =
       [UpdateStatus Connecting None,
        Log ''info'' (arrow @ '' Connecting to ws://10.0.0.5:9000''),
        WsNew 0 ''ws://10.0.0.5:9000'' [''livegrade-live-updates''],
        UpdateStatus Ok None,
        Log ''info'' ''WebSocket opened to ws://10.0.0.5:9000'',
        WsClose 0,
        UpdateStatus Connecting None,
        UpdateStatus BadConfig (Some ''Enter server IP''),
        Log ''warn'' ''WS closed, scheduling reconnect'',
        SetTimeout 0 ReconnectCb 5000]"
  by (simp add: run_eval inst_of_def blank_cfg_def trim_blank)

text \<open>
  Claim C9, amended. When the configured host is missing, empty or made of white space
  only, \<^verbatim>\<open>init\<close> and \<^verbatim>\<open>configUpdated\<close> report \<^verbatim>\<open>Connecting\<close> and then \<^verbatim>\<open>BadConfig\<close>,
  create no socket and arm no timer themselves; a reconnect timer that fires reports
  \<^verbatim>\<open>BadConfig\<close> again and does nothing else; and as long as the configuration is not
  replaced, whatever events follow (socket events, timers, ends of requests, actions,
  destroy), the module creates no socket.
\<close>

theorem blank_host_never_connects:
  assumes "host cfg = JUndef
         \<or> host cfg = JStr (concat spaces) \<and> set spaces \<subseteq> set js_whitespace"
    and "config (inst w) = cfg"
    and "\<not> list_ex is_reconfig evs"
    and "run_events e w evs = Some w1"
  shows "init e cfg st =
           ([UpdateStatus Connecting None, UpdateStatus BadConfig (Some ''Enter server IP'')],
            st\<lparr>config := cfg\<rparr>, None)
       \<and> configUpdated e cfg st =
           (close_ws st
              @ [UpdateStatus Connecting None, UpdateStatus BadConfig (Some ''Enter server IP'')],
            st\<lparr>config := cfg\<rparr>, None)
       \<and> run_timer e ReconnectCb (inst w) =
           ([UpdateStatus BadConfig (Some ''Enter server IP'')], inst w, None)
       \<and> opened (trace w1) = opened (trace w)"
proof -
  from assms(1) have b: "call_trim (js_or (host cfg) (JStr [])) = Inr []"
    by (rule blank_host_trim)
  then have c: "connectWebSocket e (st\<lparr>config := cfg\<rparr>) =
      ([UpdateStatus BadConfig (Some ''Enter server IP'')], st\<lparr>config := cfg\<rparr>, None)"
    by (intro connect_blank) simp
  from b assms(2) have bw: "call_trim (js_or (host (config (inst w))) (JStr [])) = Inr []"
    by simp
  from run_blank [OF bw assms(3) assms(4)] c connect_blank [OF bw, of e] show ?thesis
    by (simp add: init_def configUpdated_def)
qed

theorem blank_host_never_connects_witness:
  "host blank_cfg = JStr (concat ['' '', '' '']) \<and> set ['' '', '' ''] \<subseteq> set js_whitespace
   \<and> init quiet_env blank_cfg new_instance =
        ([UpdateStatus Connecting None, UpdateStatus BadConfig (Some ''Enter server IP'')],
         new_instance\<lparr>config := blank_cfg\<rparr>, None)
   \<and> run_timer quiet_env ReconnectCb (inst waiting_world) =
        ([UpdateStatus BadConfig (Some ''Enter server IP'')], inst waiting_world, None)
   \<and> (\<exists>w1. run_events quiet_env waiting_world [TimerFires 0] = Some w1
            \<and> opened (trace w1) = opened (trace waiting_world))"
proof -
  have h: "host blank_cfg = JUndef
         \<or> host blank_cfg = JStr (concat ['' '', '' '']) \<and> set ['' '', '' ''] \<subseteq> set js_whitespace"
    by (simp add: blank_cfg_def js_whitespace_def)
  have c: "config (inst waiting_world) = blank_cfg"
    by (simp add: waiting_world_def)
  have n: "\<not> list_ex is_reconfig [TimerFires 0]"
    by simp
  obtain w1 where r: "run_events quiet_env waiting_world [TimerFires 0] = Some w1"
    by (simp add: waiting_world_def new_world_def)
  from blank_host_never_connects [OF h c n r, of new_instance] h r
  show ?thesis
    by (simp add: blank_cfg_def)
qed


section \<open>Properties of the catalog fetcher\<close>

text \<open>
  Claim C5. A result frame whose \<^verbatim>\<open>success\<close> is truthy, received while the configured
  host is a string, makes the handler issue exactly one request, the one for the slots, and
  no request for the looks; the request for the looks is issued, once, by the rest of
  \<^verbatim>\<open>_fetchSlotsAndLooks\<close> when the request for the slots has ended with a readable body,
  and nothing is requested after the looks or after a failure. A result frame whose
  \<^verbatim>\<open>success\<close> is falsy closes the socket and requests nothing.
\<close>

theorem auth_result_fetches_in_order:
  assumes "json_parse e raw = Some msg"
    and "get_prop msg ''type'' = Inr (JStr ''authentication'')"
    and "get_prop msg ''subtype'' = Inr (JStr ''result'')"
    and "get_prop msg ''arguments'' = Inr args"
    and "get_prop args ''success'' = Inr ok"
    and "host (config st) = JStr hs"
    and "ws st = Some h"
    and "get_prop body ''result'' = Inr r"
  shows "onWsMessage e raw st =
          (if truthy ok
           then ([Log ''info'' (check_mark @ '' Auth OK, fetching slots & looks'' @ ellipsis),
                  Fetch (slots_url (trim hs) (port_text st) (lastAuthCode st))
                        (SlotsCont (trim hs) (port_text st) (lastAuthCode st))],
                 st, None)
           else ([Log ''error'' (cross_mark @ '' Auth failed, closing''), WsClose h], st, None))
       \<and> resume (SlotsCont hh p a) (Body body) st' =
          ([Fetch (looks_url hh p a) (LooksCont hh p a)], st'\<lparr>slots := js_or r (JArr [])\<rparr>)
       \<and> fetched (fst (resume (LooksCont hh p a) res st')) = []
       \<and> fetched (fst (resume k (NetworkFailure m) st')) = []
       \<and> fetched (fst (resume k (ParseFailure m) st')) = []"
proof -
  have "fetched (fst (resume (LooksCont hh p a) res st')) = []"
    by (cases res)
       (simp_all add: fetch_failed_def fetched_def buildApplyAction_def split: sum.splits)
  moreover have "fetched (fst (resume k (NetworkFailure m) st')) = []"
    and "fetched (fst (resume k (ParseFailure m) st')) = []"
    by (simp_all add: fetch_failed_def fetched_def)
  ultimately show ?thesis
    using assms
    by (simp add: onWsMessage_def on_result_def fetchSlotsAndLooks_def)
qed

theorem auth_result_fetches_in_order_witness:
  "json_parse sample_env (result_frame True) = Some (result_msg True)
   \<and> host (config connected) = JStr ''10.0.0.5''
   \<and> onWsMessage sample_env (result_frame True) connected =
       ([Log ''info'' (check_mark @ '' Auth OK, fetching slots & looks'' @ ellipsis),
         Fetch ''http://10.0.0.5:9000/devices/slots?auth=null''
               (SlotsCont ''10.0.0.5'' ''9000'' None)],
        connected, None)
   \<and> resume (SlotsCont ''10.0.0.5'' ''9000'' None) (Body slots_body) connected =
       ([Fetch ''http://10.0.0.5:9000/library/grades?auth=null''
               (LooksCont ''10.0.0.5'' ''9000'' None)],
        connected\<lparr>slots := JArr [JObj [(''index'', JNum 1), (''label'', JStr ''Main'')]]\<rparr>)"
proof -
  have p: "json_parse sample_env (result_frame True) = Some (result_msg True)"
    by (simp add: sample_env_def challenge_frame_def result_frame_def)
  have m: "get_prop (result_msg True) ''type'' = Inr (JStr ''authentication'')"
    "get_prop (result_msg True) ''subtype'' = Inr (JStr ''result'')"
    "get_prop (result_msg True) ''arguments'' = Inr (JObj [(''success'', JBool True)])"
    "get_prop (JObj [(''success'', JBool True)]) ''success'' = Inr (JBool True)"
    by (simp_all add: result_msg_def)
  have c: "host (config connected) = JStr ''10.0.0.5''" and w: "ws connected = Some 0"
    by (simp_all add: connected_def cfg0_def)
  have b: "get_prop slots_body ''result'' =
      Inr (JArr [JObj [(''index'', JNum 1), (''label'', JStr ''Main'')]])"
    by (simp add: slots_body_def)
  have t: "trim ''10.0.0.5'' = ''10.0.0.5''" and pt: "port_text connected = ''9000''"
    and la: "lastAuthCode connected = None"
    by (simp_all add: trim_samples port_text_def connected_def cfg0_def js_or_def
        new_instance_def)
  from auth_result_fetches_in_order [OF p m c w b,
      of "''10.0.0.5''" "''9000''" None connected] p c
  show ?thesis
    by (simp add: t pt la slots_url_def looks_url_def auth_text_def js_or_def)
qed

text \<open>
  Claim C1, as amended. A network or parse failure of either request ends the sequence: the
  step that fails only logs the error, requests nothing more, does not rebuild the action
  and leaves the instance as it is at that moment. The step after the slots never changes
  the Look list and the step after the looks never changes the Slot list. So a failure of
  the slot request leaves both previous lists, and a failure of the look request leaves the
  previous Look list, while the Slot list is the array that the slot request returned.
\<close>

theorem fetch_failure_keeps_current_lists:
  "resume k (NetworkFailure m) st = ([Log ''error'' (''Fetch error: '' @ m)], st)
   \<and> resume k (ParseFailure m) st = ([Log ''error'' (''Fetch error: '' @ m)], st)
   \<and> looks (snd (resume (SlotsCont h p a) r st)) = looks st
   \<and> slots (snd (resume (LooksCont h p a) r st)) = slots st
   \<and> slots (snd (resume (SlotsCont h p a) (Body (JObj [(''result'', JArr xs)])) st)) = JArr xs"
proof -
  have "looks (snd (resume (SlotsCont h p a) r st)) = looks st"
    by (cases r) (simp_all add: fetch_failed_def split: sum.splits)
  moreover have "slots (snd (resume (LooksCont h p a) r st)) = slots st"
    by (cases r) (simp_all add: fetch_failed_def split: sum.splits)
  ultimately show ?thesis
    by (simp add: fetch_failed_def js_or_def)
qed

text \<open>
  The claim as it was stated fails: line 131 stores the fetched slots before the looks are
  requested, so when the look request fails the Slot list is no longer the previous one.
\<close>

theorem fetch_failure_partial_overwrite_counterexample:
  "slots connected = JArr []
   \<and> slots (snd (resume (LooksCont ''10.0.0.5'' ''9000'' None) (NetworkFailure ''ECONNRESET'')
               (snd (resume (SlotsCont ''10.0.0.5'' ''9000'' None) (Body slots_body) connected))))
       = JArr [JObj [(''index'', JNum 1), (''label'', JStr ''Main'')]]
   \<and> slots (snd (resume (LooksCont ''10.0.0.5'' ''9000'' None) (NetworkFailure ''ECONNRESET'')
               (snd (resume (SlotsCont ''10.0.0.5'' ''9000'' None) (Body slots_body) connected))))
       \<noteq> slots connected"
  by (simp add: slots_body_def connected_def new_instance_def fetch_failed_def js_or_def)

section \<open>Stopping and reconfiguring\<close>

lemma connected_reached:
  "init quiet_env cfg0 new_instance =
     ([UpdateStatus Connecting None,
       Log ''info'' (arrow @ '' Connecting to ws://10.0.0.5:9000''),
       WsNew 0 ''ws://10.0.0.5:9000'' [''livegrade-live-updates'']],
      connected, None)"
  by (simp add: run_eval connected_def)

text \<open>
  Claim C2, at the input where the module departs from it. The instance is started and its
  socket opens; \<^verbatim>\<open>destroy\<close> closes the socket and reports \<^verbatim>\<open>Disconnected\<close>; the socket
  then emits \<^verbatim>\<open>close\<close>, whose handler arms the reconnect timer; five seconds later the
  timer opens a new socket.
\<close>

theorem destroy_then_close_reconnects:
  "trace_of (run_events quiet_env new_world
       [Init cfg0, SockOpen 0, Destroy, SockClose 0, TimerFires 0]) =
     [UpdateStatus Connecting None,
      Log ''info'' (arrow @ '' Connecting to ws://10.0.0.5:9000''),
      WsNew 0 ''ws://10.0.0.5:9000'' [''livegrade-live-updates''],
      UpdateStatus Ok None,
      Log ''info'' ''WebSocket opened to ws://10.0.0.5:9000'',
      WsClose 0,
      UpdateStatus Disconnected None,
      Log ''warn'' ''WS closed, scheduling reconnect'',
      SetTimeout 0 ReconnectCb 5000,
      Log ''info'' (arrow @ '' Connecting to ws://10.0.0.5:9000''),
      WsNew 1 ''ws://10.0.0.5:9000'' [''livegrade-live-updates'']]"
  by (simp add: run_eval)

text \<open>
  Claim C8, at the input where the module departs from it. With a reconnect timer armed by
  an \<^verbatim>\<open>error\<close> event, \<^verbatim>\<open>configUpdated\<close> opens a new socket and leaves the timer armed
  (\<^verbatim>\<open>destroy\<close> clears it, \<^verbatim>\<open>configUpdated\<close> does not); when the old socket has closed and
  the timer of its \<^verbatim>\<open>close\<close> handler fires, a second socket is opened beside the first.
\<close>

theorem reconfigure_keeps_timer_armed:
  "timers_of (run_events quiet_env new_world
       [Init cfg0, SockOpen 0, SockError 0 ''ECONNRESET'', ConfigUpdated cfg0]) =
     [(0, ReconnectCb)]
   \<and> socks_of (run_events quiet_env new_world
       [Init cfg0, SockOpen 0, SockError 0 ''ECONNRESET'', ConfigUpdated cfg0,
        SockClose 0, TimerFires 1]) =
     [(1, ''ws://10.0.0.5:9000''), (2, ''ws://10.0.0.5:9000'')]"
  by (simp add: run_eval)

section \<open>The reconnect timer\<close>

text \<open>
  What does hold of the timers: in every run from a new instance the armed timers have
  distinct handles and an armed reconnect timer is the one in \<^verbatim>\<open>reconnectTimer\<close>, so at
  most one reconnect timer is armed at any time.
\<close>

lemma timers_apply_effect: "timers (apply_effect w x) = timer_effect (timers w) x"
  by (cases x) simp_all

lemma timers_foldl: "timers (foldl apply_effect w fx) = timers_after (timers w) fx"
  by (induction fx arbitrary: w) (simp_all add: timers_after_def timers_apply_effect)

lemma timers_absorb: "timers (absorb w (fx, st, x)) = timers_after (timers w) fx"
  by (simp add: absorb_def timers_foldl)

lemma timers_after_simps:
  "timers_after ts [] = ts"
  "timers_after ts (x # fx) = timers_after (timer_effect ts x) fx"
  "timers_after ts (fx @ gx) = timers_after (timers_after ts fx) gx"
  by (simp_all add: timers_after_def)

lemma timers_ok_filter:
  "timers_ok ts st \<Longrightarrow> timers_ok (filter P ts) st"
  by (auto simp: timers_ok_def distinct_map_filter)

lemma timers_ok_cong:
  "next_timer st' = next_timer st \<Longrightarrow> reconnectTimer st' = reconnectTimer st
   \<Longrightarrow> timers_ok ts st' = timers_ok ts st"
  by (simp add: timers_ok_def)

lemma scheduleReconnect_ok:
  assumes "timers_ok ts st"
  shows "timers_ok (timers_after ts (fst (scheduleReconnect st))) (snd (scheduleReconnect st))"
proof (cases "reconnectTimer st")
  case None
  with assms show ?thesis
    by (fastforce simp: timers_ok_def scheduleReconnect_def timers_after_simps)
next
  case (Some t)
  with assms show ?thesis
    by (fastforce simp: timers_ok_def scheduleReconnect_def timers_after_simps
        distinct_map_filter)
qed

lemma connect_keeps:
  assumes "timers_ok ts st"
  shows "keeps_timers ts (connectWebSocket e st)"
proof -
  have a: "timers_ok ts (st\<lparr>ws := x, next_sock := y\<rparr>)" for x y
    using assms by (simp add: timers_ok_def)
  show ?thesis
    using assms scheduleReconnect_ok [OF assms] a
    by (simp add: keeps_timers_def connectWebSocket_def Let_def timers_after_simps
        split: sum.splits option.splits)
qed

lemma init_keeps:
  assumes "timers_ok ts st"
  shows "keeps_timers ts (init e cfg st)"
proof -
  obtain fx st' x where c: "connectWebSocket e (st\<lparr>config := cfg\<rparr>) = (fx, st', x)"
    by (cases "connectWebSocket e (st\<lparr>config := cfg\<rparr>)")
  from assms have "timers_ok ts (st\<lparr>config := cfg\<rparr>)"
    by (simp add: timers_ok_def)
  from connect_keeps [OF this, of e] show ?thesis
    by (simp add: keeps_timers_def init_def c timers_after_simps)
qed

lemma configUpdated_keeps:
  assumes "timers_ok ts st"
  shows "keeps_timers ts (configUpdated e cfg st)"
proof -
  obtain fx st' x where c: "connectWebSocket e (st\<lparr>config := cfg\<rparr>) = (fx, st', x)"
    by (cases "connectWebSocket e (st\<lparr>config := cfg\<rparr>)")
  from assms have "timers_ok ts (st\<lparr>config := cfg\<rparr>)"
    by (simp add: timers_ok_def)
  from connect_keeps [OF this, of e] show ?thesis
    by (simp add: keeps_timers_def configUpdated_def c close_ws_def timers_after_simps
        split: option.splits)
qed

lemma destroy_keeps:
  assumes "timers_ok ts st"
  shows "keeps_timers ts (destroy st)"
  using assms timers_ok_filter [OF assms]
  by (simp add: keeps_timers_def destroy_def close_ws_def timers_after_simps
      split: option.splits)

lemma on_open_keeps: "timers_ok ts st \<Longrightarrow> keeps_timers ts (on_open url st)"
  by (simp add: keeps_timers_def on_open_def timers_after_simps)

lemma on_error_keeps: "timers_ok ts st \<Longrightarrow> keeps_timers ts (on_error m st)"
  using scheduleReconnect_ok [of ts st]
  by (simp add: keeps_timers_def on_error_def timers_after_simps)

lemma on_close_keeps: "timers_ok ts st \<Longrightarrow> keeps_timers ts (on_close st)"
  using scheduleReconnect_ok [of ts st]
  by (simp add: keeps_timers_def on_close_def timers_after_simps)

lemma ws_send_timers: "ws_send e st v = Inr fx \<Longrightarrow> timers_after ts fx = ts"
  by (auto simp: ws_send_def timers_after_simps split: option.splits ready_state.splits)

lemma onWsMessage_keeps:
  assumes "timers_ok ts st"
  shows "keeps_timers ts (onWsMessage e raw st)"
proof -
  have a: "timers_ok ts (st\<lparr>lastAuthCode := x\<rparr>)" for x
    using assms by (simp add: timers_ok_def)
  have c: "keeps_timers ts (on_challenge e msg st)" for msg
    using assms a
    by (auto simp: keeps_timers_def on_challenge_def Let_def timers_after_simps
        ws_send_timers split: sum.splits)
  have r: "keeps_timers ts (on_result msg st)" for msg
    using assms
    by (simp add: keeps_timers_def on_result_def fetchSlotsAndLooks_def timers_after_simps
        split: sum.splits option.splits)
  show ?thesis
    using assms c r
    by (simp add: onWsMessage_def split: sum.splits option.splits)
       (simp add: keeps_timers_def timers_after_simps)
qed

lemma applyGrade_keeps:
  assumes "timers_ok ts st"
  shows "keeps_timers ts (applyGrade e opts st)"
proof -
  have "timers_ok (ts @ [(next_timer st, cb)]) (st\<lparr>next_timer := Suc (next_timer st)\<rparr>)"
    if "cb \<noteq> ReconnectCb" for cb
    using assms that by (fastforce simp: timers_ok_def)
  then show ?thesis
    using assms
    by (auto simp: keeps_timers_def applyGrade_def Let_def timers_after_simps
        ws_send_timers split: sum.splits)
qed

lemma run_timer_keeps:
  "timers_ok ts st \<Longrightarrow> keeps_timers ts (run_timer e cb st)"
  using connect_keeps [of ts st e]
  by (cases cb) (simp_all add: keeps_timers_def timers_after_simps split: sum.splits)

lemma resume_keeps:
  assumes "timers_ok ts st"
  shows "timers_ok (timers_after ts (fst (resume k r st))) (snd (resume k r st))"
proof -
  have a: "timers_ok ts (st\<lparr>slots := x\<rparr>)" "timers_ok ts (st\<lparr>looks := x\<rparr>)" for x
    using assms by (simp_all add: timers_ok_def)
  show ?thesis
    using assms a
    by (cases k; cases r)
       (simp_all add: fetch_failed_def buildApplyAction_def timers_after_simps
          split: sum.splits)
qed

lemma absorb_ok:
  assumes "keeps_timers (timers w0) out"
  shows "world_ok (absorb w0 out)"
proof -
  obtain fx st x where out: "out = (fx, st, x)"
    by (cases out)
  from assms show ?thesis
    unfolding out by (simp add: world_ok_def keeps_timers_def timers_absorb inst_absorb)
qed

lemma step_ok:
  assumes ok: "world_ok w" and st: "step e w ev = Some w1"
  shows "world_ok w1"
proof -
  from ok have t: "timers_ok (timers w) (inst w)"
    by (simp add: world_ok_def)
  show ?thesis
  proof (cases ev)
    case (Init cfg)
    with st have "w1 = absorb w (init e cfg (inst w))" by simp
    then show ?thesis using absorb_ok [OF init_keeps [OF t]] by simp
  next
    case (ConfigUpdated cfg)
    with st have "w1 = absorb w (configUpdated e cfg (inst w))" by simp
    then show ?thesis using absorb_ok [OF configUpdated_keeps [OF t]] by simp
  next
    case Destroy
    with st have "w1 = absorb w (destroy (inst w))" by simp
    then show ?thesis using absorb_ok [OF destroy_keeps [OF t]] by simp
  next
    case (SockOpen h)
    with st obtain url where
      "w1 = absorb (w\<lparr>ready := (ready w)(h := OPEN)\<rparr>) (on_open url (inst w))"
      by (auto split: option.splits if_splits)
    then show ?thesis
      using absorb_ok [of "w\<lparr>ready := (ready w)(h := OPEN)\<rparr>" "on_open url (inst w)"]
        on_open_keeps [OF t]
      by simp
  next
    case (SockMessage h raw)
    with st have "w1 = absorb w (onWsMessage (outside e w) raw (inst w))"
      by (auto split: option.splits)
    then show ?thesis using absorb_ok [OF onWsMessage_keeps [OF t]] by simp
  next
    case (SockError h m)
    with st have
      "w1 = absorb (w\<lparr>ready := (ready w)(h := CLOSING)\<rparr>) (on_error m (inst w))"
      by (auto split: option.splits)
    then show ?thesis
      using absorb_ok [of "w\<lparr>ready := (ready w)(h := CLOSING)\<rparr>" "on_error m (inst w)"]
        on_error_keeps [OF t]
      by simp
  next
    case (SockClose h)
    with st have
      "w1 = absorb (w\<lparr>socks := filter (\<lambda>p. fst p \<noteq> h) (socks w),
                      ready := (ready w)(h := CLOSED)\<rparr>) (on_close (inst w))"
      by (auto split: option.splits)
    then show ?thesis
      using absorb_ok [of "w\<lparr>socks := filter (\<lambda>p. fst p \<noteq> h) (socks w),
                             ready := (ready w)(h := CLOSED)\<rparr>" "on_close (inst w)"]
        on_close_keeps [OF t]
      by simp
  next
    case (TimerFires tm)
    with st obtain cb where
      w1: "w1 = absorb (w\<lparr>timers := filter (\<lambda>p. fst p \<noteq> tm) (timers w)\<rparr>)
                  (run_timer e cb (inst w))"
      by (auto split: option.splits)
    from timers_ok_filter [OF t]
    have "timers_ok (filter (\<lambda>p. fst p \<noteq> tm) (timers w)) (inst w)" .
    from run_timer_keeps [OF this, of e cb] show ?thesis
      unfolding w1 by (intro absorb_ok) simp
  next
    case (RequestEnds i r)
    obtain fx st' where res: "resume (requests w ! i) r (inst w) = (fx, st')"
      by (cases "resume (requests w ! i) r (inst w)")
    with resume_keeps [OF t, of "requests w ! i" r]
    have q: "keeps_timers (timers w) (fx, st', None)"
      by (simp add: keeps_timers_def)
    from st RequestEnds res
    have "w1 = absorb (w\<lparr>requests := take i (requests w) @ drop (Suc i) (requests w)\<rparr>)
                  (fx, st', None)"
      by (auto split: if_splits)
    then show ?thesis
      using q by (simp add: absorb_ok)
  next
    case (Action opts)
    with st have "w1 = absorb w (applyGrade (outside e w) opts (inst w))"
      by (auto split: if_splits)
    then show ?thesis using absorb_ok [OF applyGrade_keeps [OF t]] by simp
  qed
qed

lemma run_ok:
  "world_ok w \<Longrightarrow> run_events e w evs = Some w1 \<Longrightarrow> world_ok w1"
proof (induction evs arbitrary: w)
  case Nil
  then show ?case by simp
next
  case (Cons ev evs)
  from Cons.prems(2) obtain w2 where s: "step e w ev = Some w2"
    and r: "run_events e w2 evs = Some w1"
    by (auto split: option.splits)
  from step_ok [OF Cons.prems(1) s] have "world_ok w2" .
  from Cons.IH [OF this r] show ?case .
qed

lemma reconnect_timers_le_1:
  assumes "timers_ok ts st"
  shows "length (filter (\<lambda>p. snd p = ReconnectCb) ts) \<le> 1"
proof -
  let ?hs = "map fst (filter (\<lambda>p. snd p = ReconnectCb) ts)"
  have d: "distinct ?hs"
    using assms by (simp add: timers_ok_def distinct_map_filter)
  have m: "\<forall>t \<in> set ?hs. reconnectTimer st = Some t"
    using assms by (auto simp: timers_ok_def)
  have "length ?hs \<le> 1"
  proof (cases "reconnectTimer st")
    case None
    with m have "set ?hs = {}" by auto
    then have "?hs = []" by (simp only: set_empty)
    then have "length ?hs = 0" by (simp only: list.size)
    then show ?thesis by linarith
  next
    case (Some t)
    with m have "set ?hs \<subseteq> {t}" by auto
    then have "card (set ?hs) \<le> card {t}"
      by (intro card_mono) simp_all
    moreover from d have "card (set ?hs) = length ?hs"
      by (rule distinct_card)
    ultimately show ?thesis
      by (simp only: card.empty card_insert_if finite.emptyI empty_iff if_False One_nat_def)
  qed
  then show ?thesis by simp
qed

lemma at_most_one_reconnect_timer:
  assumes "run_events e new_world evs = Some w"
  shows "length (filter (\<lambda>p. snd p = ReconnectCb) (timers w)) \<le> 1"
proof -
  have "world_ok new_world"
    by (simp add: world_ok_def new_world_def timers_ok_def)
  from run_ok [OF this assms] show ?thesis
    unfolding world_ok_def by (rule reconnect_timers_le_1)
qed

end
